theory Spec2Isabelle
  imports Main
begin

section \<open>Python values and errors\<close>

text \<open>
  The module decodes JSON payloads into Python objects. Python is dynamically typed, so
  raw wire values and decoded values live in one datatype. Objects owned by the client
  runtime (roles, members, channels, ...) are opaque handles.
  Attribute names are the field names of the wire format; the interpreter's special
  attributes (\<open>__class__\<close>, \<open>__dict__\<close>, \<open>__weakref__\<close>) are outside the model.
\<close>

type_synonym obj = nat

datatype error = KeyError | ValueError | TypeError | AttributeError

datatype pyval =
    PNone
  | PBool bool
  | PInt int
  | PStr string
  | PList "pyval list"
  | PTuple "pyval list"
  | PDict "(string \<times> pyval) list"
  | Entity obj
  | Guild int
  | Object int "pyval option"
  | AllChannels int
  | Colour pyval
  | EnumValue string pyval
  | Flags string int
  | Datetime pyval
  | Asset string "pyval list"
  | PermissionOverwrite int int
  | Invite pyval pyval pyval "pyval option"
  | Proxy string "(string \<times> pyval) list"

text \<open>
  \<open>Entity r\<close> is an object found in a lookup table; \<open>Guild i\<close> is the entry's own guild;
  \<open>Object i n\<close> is the opaque reference with id \<open>i\<close>, where \<open>n\<close> is the \<open>name\<close> attribute
  when one was attached; \<open>Invite data guild channel inviter\<close> is the invite built from a
  payload, with \<open>inviter = None\<close> while no inviter is attached; \<open>Proxy c kw\<close> is an instance
  of the proxy class \<open>c\<close> built from keyword arguments.
\<close>

subsection \<open>Builtins\<close>

definition decimal_digits :: string where
  "decimal_digits = ''0123456789''"

definition digit_val :: "char \<Rightarrow> nat option" where
  "digit_val c = map_of (zip decimal_digits [0, 1, 2, 3, 4, 5, 6, 7, 8, 9]) c"

fun parse_digits :: "nat \<Rightarrow> string \<Rightarrow> nat option" where
  "parse_digits acc [] = Some acc"
| "parse_digits acc (c # cs) =
     (case digit_val c of None \<Rightarrow> None | Some d \<Rightarrow> parse_digits (10 * acc + d) cs)"

text \<open>
  \<open>int(s)\<close> on a string: an optional sign followed by decimal digits. (Python also accepts
  surrounding whitespace and underscores between digits; snowflakes on the wire are plain
  digit strings.)
\<close>

fun str_to_int :: "string \<Rightarrow> int option" where
  "str_to_int [] = None"
| "str_to_int (c # cs) =
     (if c = CHR ''-'' then
        (if cs = [] then None else map_option (\<lambda>n. - int n) (parse_digits 0 cs))
      else if c = CHR ''+'' then
        (if cs = [] then None else map_option int (parse_digits 0 cs))
      else map_option int (parse_digits 0 (c # cs)))"

fun py_int :: "pyval \<Rightarrow> error + int" where
  "py_int (PInt n) = Inr n"
| "py_int (PBool b) = Inr (if b then 1 else 0)"
| "py_int (PStr s) = (case str_to_int s of None \<Rightarrow> Inl ValueError | Some n \<Rightarrow> Inr n)"
| "py_int _ = Inl TypeError"

text \<open>\<open>x[k]\<close> with a string key.\<close>

fun getitem :: "pyval \<Rightarrow> string \<Rightarrow> error + pyval" where
  "getitem (PDict kvs) k = (case map_of kvs k of None \<Rightarrow> Inl KeyError | Some v \<Rightarrow> Inr v)"
| "getitem _ k = Inl TypeError"

text \<open>\<open>x.get(k)\<close> and \<open>x.get(k, d)\<close>.\<close>

fun dict_get_default :: "pyval \<Rightarrow> string \<Rightarrow> pyval \<Rightarrow> error + pyval" where
  "dict_get_default (PDict kvs) k d = Inr (case map_of kvs k of None \<Rightarrow> d | Some v \<Rightarrow> v)"
| "dict_get_default _ k d = Inl AttributeError"

definition dict_get :: "pyval \<Rightarrow> string \<Rightarrow> error + pyval" where
  "dict_get x k = dict_get_default x k PNone"

text \<open>\<open>int(x[k])\<close>\<close>

definition int_item :: "pyval \<Rightarrow> string \<Rightarrow> error + int" where
  "int_item x k = (case getitem x k of Inl e \<Rightarrow> Inl e | Inr v \<Rightarrow> py_int v)"

text \<open>\<open>for e in x\<close>: the elements a loop over \<open>x\<close> visits.\<close>

fun iterate :: "pyval \<Rightarrow> error + pyval list" where
  "iterate (PList xs) = Inr xs"
| "iterate (PTuple xs) = Inr xs"
| "iterate (PStr s) = Inr (map (\<lambda>c. PStr [c]) s)"
| "iterate (PDict kvs) = Inr (map (\<lambda>kv. PStr (fst kv)) kvs)"
| "iterate _ = Inl TypeError"

text \<open>Truth value of an object, as \<open>if x\<close>, \<open>x and y\<close>, \<open>x or y\<close> test it.\<close>

fun truthy :: "pyval \<Rightarrow> bool" where
  "truthy PNone = False"
| "truthy (PBool b) = b"
| "truthy (PInt n) = (n \<noteq> 0)"
| "truthy (PStr s) = (s \<noteq> [])"
| "truthy (PList xs) = (xs \<noteq> [])"
| "truthy (PTuple xs) = (xs \<noteq> [])"
| "truthy (PDict kvs) = (kvs \<noteq> [])"
| "truthy _ = True"

text \<open>\<open>x == n\<close> for an integer literal \<open>n\<close>.\<close>

fun eq_int :: "pyval \<Rightarrow> int \<Rightarrow> bool" where
  "eq_int (PInt m) n = (m = n)"
| "eq_int (PBool b) n = ((if b then 1 else 0) = n)"
| "eq_int _ n = False"

definition startswith :: "string \<Rightarrow> string \<Rightarrow> bool" where
  "startswith s p = (take (length p) s = p)"

definition endswith :: "string \<Rightarrow> string \<Rightarrow> bool" where
  "endswith s p = (length p \<le> length s \<and> drop (length s - length p) s = p)"

definition digit_char :: "nat \<Rightarrow> char" where
  "digit_char d = decimal_digits ! d"

fun str_of_nat :: "nat \<Rightarrow> string" where
  "str_of_nat n = (if n < 10 then [digit_char n] else str_of_nat (n div 10) @ [digit_char (n mod 10)])"

definition str_of_int :: "int \<Rightarrow> string" where
  "str_of_int i = (if i < 0 then CHR ''-'' # str_of_nat (nat (- i)) else str_of_nat (nat i))"

section \<open>Collaborators outside the module\<close>

text \<open>
  Modelled from the spec: the guild lookup surface (\<open>get_role(id)\<close>, \<open>get_channel(id)\<close>,
  \<open>get_channel_or_thread(id)\<close>, \<open>get_member(id)\<close>, \<open>get_stage_instance(id)\<close>,
  \<open>get_scheduled_event(id)\<close>, \<open>get_thread(id)\<close> and the guild's own \<open>id\<close>) is not among
  the sources. Each lookup is a parameter: a table from ids to objects, with a miss
  returning nothing.
\<close>

record guild =
  guild_id :: int
  get_role :: "int \<Rightarrow> obj option"
  get_channel :: "int \<Rightarrow> obj option"
  get_channel_or_thread :: "int \<Rightarrow> obj option"
  get_member :: "int \<Rightarrow> obj option"
  get_stage_instance :: "int \<Rightarrow> obj option"
  get_scheduled_event :: "int \<Rightarrow> obj option"
  get_thread :: "int \<Rightarrow> obj option"

text \<open>
  Modelled from the spec: the global lookup surface (\<open>get_emoji(id)\<close>, \<open>get_sticker(id)\<close>)
  and the guild lookup of the connection state are not among the sources; they are
  parameters as well.
\<close>

record connection_state =
  get_emoji :: "int \<Rightarrow> obj option"
  get_sticker :: "int \<Rightarrow> obj option"
  get_guild :: "int \<Rightarrow> obj option"

text \<open>An integration of the caller-supplied table, with the attribute this module reads.\<close>

record partial_integration =
  integration_obj :: obj
  application_id :: "int option"

text \<open>
  The tables an entry consults. They are shared, mutable objects of the caller: every
  operation takes their contents at the time it runs. The objects they hold are true in
  a boolean test, so \<open>found or fallback\<close> is \<open>found\<close> whenever the lookup hits. \<open>integrations\<close> keeps the order of
  the dictionary, which the search by application id follows.
\<close>

record env =
  env_guild :: guild
  env_state :: connection_state
  users :: "int \<Rightarrow> obj option"
  integrations :: "(int \<times> partial_integration) list"
  app_commands :: "int \<Rightarrow> obj option"

text \<open>A lookup called with an absent id misses.\<close>

definition lookup :: "(int \<Rightarrow> obj option) \<Rightarrow> int option \<Rightarrow> obj option" where
  "lookup f i = (case i of None \<Rightarrow> None | Some n \<Rightarrow> f n)"

text \<open>
  Modelled from the spec: the class \<open>Object\<close> is not among the sources. An opaque reference
  always has an id: \<open>Object(id)\<close> converts its argument to an integer and raises TypeError
  when it cannot.
\<close>

definition mk_Object :: "pyval \<Rightarrow> error + pyval" where
  "mk_Object i = (case py_int i of Inl e \<Rightarrow> Inl TypeError | Inr n \<Rightarrow> Inr (Object n None))"

definition opt_int :: "int option \<Rightarrow> pyval" where
  "opt_int i = (case i of None \<Rightarrow> PNone | Some n \<Rightarrow> PInt n)"

text \<open>\<open>found or Object(id)\<close>.\<close>

definition or_Object :: "obj option \<Rightarrow> pyval \<Rightarrow> error + pyval" where
  "or_Object found i = (case found of Some r \<Rightarrow> Inr (Entity r) | None \<Rightarrow> mk_Object i)"

subsection \<open>The action enumeration\<close>

text \<open>
  Modelled from the spec: the enumeration \<open>AuditLogAction\<close> and the enum-decode service
  \<open>try_enum\<close> are not among the sources. A member has a name, a value, a category (or
  none) and a target kind (or none); the table of members is a parameter. An unknown code
  decodes to the unrecognized variant, which is not a member; its category and target
  kind are absent, and its name is \<open>unknown_\<close> followed by the code.
\<close>

datatype AuditLogAction =
    EnumMember string int pyval "string option"
  | Unrecognized pyval

type_synonym action_table = "int \<Rightarrow> (string \<times> pyval \<times> string option) option"

definition member_of :: "action_table \<Rightarrow> int \<Rightarrow> AuditLogAction option" where
  "member_of tbl n = map_option (\<lambda>(nm, cat, tt). EnumMember nm n cat tt) (tbl n)"

fun try_enum_action :: "action_table \<Rightarrow> pyval \<Rightarrow> AuditLogAction" where
  "try_enum_action tbl (PInt n) = (case member_of tbl n of Some m \<Rightarrow> m | None \<Rightarrow> Unrecognized (PInt n))"
| "try_enum_action tbl (PBool b) =
     (case member_of tbl (if b then 1 else 0) of Some m \<Rightarrow> m | None \<Rightarrow> Unrecognized (PBool b))"
| "try_enum_action tbl v = Unrecognized v"

fun action_name :: "AuditLogAction \<Rightarrow> string" where
  "action_name (EnumMember nm v cat tt) = nm"
| "action_name (Unrecognized (PInt n)) = ''unknown_'' @ str_of_int n"
| "action_name (Unrecognized (PBool b)) = ''unknown_'' @ (if b then ''True'' else ''False'')"
| "action_name (Unrecognized (PStr s)) = ''unknown_'' @ s"
| "action_name (Unrecognized v) = ''unknown_''"

fun action_category :: "AuditLogAction \<Rightarrow> pyval" where
  "action_category (EnumMember nm v cat tt) = cat"
| "action_category (Unrecognized v) = PNone"

fun action_target_type :: "AuditLogAction \<Rightarrow> string option" where
  "action_target_type (EnumMember nm v cat tt) = tt"
| "action_target_type (Unrecognized v) = None"

text \<open>\<open>isinstance(a, AuditLogAction)\<close>.\<close>

fun is_AuditLogAction :: "AuditLogAction \<Rightarrow> bool" where
  "is_AuditLogAction (EnumMember nm v cat tt) = True"
| "is_AuditLogAction (Unrecognized v) = False"

text \<open>\<open>a is AuditLogAction.nm\<close>: members are singletons with distinct names.\<close>

fun action_is :: "AuditLogAction \<Rightarrow> string \<Rightarrow> bool" where
  "action_is (EnumMember nm' v cat tt) nm = (nm' = nm)"
| "action_is (Unrecognized v) nm = False"

section \<open>Diff containers and the entry\<close>

text \<open>
  An \<open>AuditLogDiff\<close> is its instance dictionary: attribute names with their values, in
  insertion order.
\<close>

type_synonym AuditLogDiff = "(string \<times> pyval) list"

fun setattr :: "AuditLogDiff \<Rightarrow> string \<Rightarrow> pyval \<Rightarrow> AuditLogDiff" where
  "setattr [] k v = [(k, v)]"
| "setattr (p # ps) k v = (if fst p = k then (k, v) # ps else p # setattr ps k v)"

definition hasattr :: "AuditLogDiff \<Rightarrow> string \<Rightarrow> bool" where
  "hasattr d k = (map_of d k \<noteq> None)"

definition getattr :: "AuditLogDiff \<Rightarrow> string \<Rightarrow> error + pyval" where
  "getattr d k = (case map_of d k of None \<Rightarrow> Inl AttributeError | Some v \<Rightarrow> Inr v)"

text \<open>
  The entry. \<open>raw_changes\<close> is the attribute \<open>_changes\<close>, absent once deleted;
  \<open>raw_target_id\<close> is \<open>_target_id\<close>. The
  \<open>cached_\<close> fields hold what a cached property has stored on the instance.
\<close>

record AuditLogEntry =
  action :: AuditLogAction
  entry_id :: int
  reason :: pyval
  extra :: pyval
  raw_changes :: "pyval option"
  user :: pyval
  raw_target_id :: "int option"
  cached_target :: "pyval option"
  cached_category :: "pyval option"
  cached_changes :: "(AuditLogDiff \<times> AuditLogDiff) option"
  cached_before :: "AuditLogDiff option"
  cached_after :: "AuditLogDiff option"

text \<open>\<open>AuditLogEntry._get_member\<close>\<close>

definition entry_get_member :: "env \<Rightarrow> int option \<Rightarrow> pyval" where
  "entry_get_member ev user_id =
     (case user_id of
        None \<Rightarrow> PNone
      | Some u \<Rightarrow>
          (case get_member (env_guild ev) u of
             Some m \<Rightarrow> Entity m
           | None \<Rightarrow> (case users ev u of Some x \<Rightarrow> Entity x | None \<Rightarrow> PNone)))"

text \<open>\<open>AuditLogEntry._get_integration\<close>\<close>

definition get_integration :: "env \<Rightarrow> int option \<Rightarrow> obj option" where
  "get_integration ev integration_id =
     (case integration_id of
        None \<Rightarrow> None
      | Some i \<Rightarrow> map_option integration_obj (map_of (integrations ev) i))"

text \<open>
  \<open>AuditLogEntry._get_integration_by_app_id\<close>: the first integration, in the order of the
  table, whose \<open>application_id\<close> is the given one.
\<close>

definition get_integration_by_app_id :: "env \<Rightarrow> int option \<Rightarrow> obj option" where
  "get_integration_by_app_id ev app_id =
     (case app_id of
        None \<Rightarrow> None
      | Some a \<Rightarrow>
          map_option integration_obj
            (find (\<lambda>i. application_id i = Some a) (map snd (integrations ev))))"

text \<open>\<open>AuditLogEntry._get_app_command\<close>\<close>

definition get_app_command :: "env \<Rightarrow> int option \<Rightarrow> obj option" where
  "get_app_command ev app_command_id =
     (case app_command_id of None \<Rightarrow> None | Some c \<Rightarrow> app_commands ev c)"

section \<open>Transform registry\<close>

text \<open>Loops that stop at the first exception.\<close>

fun map_result :: "('a \<Rightarrow> error + 'b) \<Rightarrow> 'a list \<Rightarrow> error + 'b list" where
  "map_result f [] = Inr []"
| "map_result f (x # xs) =
     (case f x of
        Inl e \<Rightarrow> Inl e
      | Inr y \<Rightarrow> (case map_result f xs of Inl e \<Rightarrow> Inl e | Inr ys \<Rightarrow> Inr (y # ys)))"

fun fold_result :: "('s \<Rightarrow> 'a \<Rightarrow> error + 's) \<Rightarrow> 'a list \<Rightarrow> 's \<Rightarrow> error + 's" where
  "fold_result f [] s = Inr s"
| "fold_result f (x # xs) s =
     (case f s x of Inl e \<Rightarrow> Inl e | Inr s' \<Rightarrow> fold_result f xs s')"

type_synonym Transformer = "env \<Rightarrow> AuditLogEntry \<Rightarrow> pyval \<Rightarrow> error + pyval"

text \<open>
  Modelled from the spec: \<open>utils.parse_time\<close>, \<open>Colour\<close>, \<open>Permissions\<close>,
  \<open>PermissionOverwrite.from_pair\<close>, the \<open>Asset\<close> constructors, the flag classes and
  \<open>enums.try_enum\<close> on the value enumerations are not among the sources. Each is a
  constructor applied to its arguments; an absent timestamp stays absent.
\<close>

definition parse_time :: "pyval \<Rightarrow> pyval" where
  "parse_time t = (if t = PNone then PNone else Datetime t)"

definition transform_timestamp :: Transformer where
  "transform_timestamp ev entry data = Inr (parse_time data)"

definition transform_color :: Transformer where
  "transform_color ev entry data = Inr (Colour data)"

definition transform_snowflake :: Transformer where
  "transform_snowflake ev entry data =
     (case py_int data of Inl e \<Rightarrow> Inl e | Inr n \<Rightarrow> Inr (PInt n))"

definition transform_channel :: Transformer where
  "transform_channel ev entry data =
     (if data = PNone then Inr PNone
      else case py_int data of
             Inl e \<Rightarrow> Inl e
           | Inr n \<Rightarrow> or_Object (get_channel (env_guild ev) n) data)"

definition transform_member_id :: Transformer where
  "transform_member_id ev entry data =
     (if data = PNone then Inr PNone
      else case py_int data of
             Inl e \<Rightarrow> Inl e
           | Inr n \<Rightarrow> Inr (entry_get_member ev (Some n)))"

definition transform_guild_id :: Transformer where
  "transform_guild_id ev entry data =
     (if data = PNone then Inr PNone
      else case py_int data of
             Inl e \<Rightarrow> Inl e
           | Inr n \<Rightarrow>
               Inr (case get_guild (env_state ev) n of None \<Rightarrow> PNone | Some g \<Rightarrow> Entity g))"

text \<open>The body of the loop of \<open>_transform_overwrites\<close>.\<close>

definition transform_overwrite :: "env \<Rightarrow> pyval \<Rightarrow> error + pyval" where
  "transform_overwrite ev elem =
     (case int_item elem ''allow'' of Inl e \<Rightarrow> Inl e | Inr allow \<Rightarrow>
     (case int_item elem ''deny'' of Inl e \<Rightarrow> Inl e | Inr deny \<Rightarrow>
     (case getitem elem ''type'' of Inl e \<Rightarrow> Inl e | Inr ow_type \<Rightarrow>
     (case int_item elem ''id'' of Inl e \<Rightarrow> Inl e | Inr ow_id \<Rightarrow>
        (let target =
               (if ow_type = PStr ''0'' then
                  (case get_role (env_guild ev) ow_id of None \<Rightarrow> PNone | Some r \<Rightarrow> Entity r)
                else if ow_type = PStr ''1'' then entry_get_member ev (Some ow_id)
                else PNone);
             target' = (if target = PNone then Object ow_id None else target)
         in Inr (PTuple [target', PermissionOverwrite allow deny]))))))"

definition transform_overwrites :: Transformer where
  "transform_overwrites ev entry data =
     (case iterate data of
        Inl e \<Rightarrow> Inl e
      | Inr elems \<Rightarrow>
          (case map_result (transform_overwrite ev) elems of
             Inl e \<Rightarrow> Inl e
           | Inr overwrites \<Rightarrow> Inr (PList overwrites)))"

definition transform_icon :: Transformer where
  "transform_icon ev entry data =
     (if data = PNone then Inr PNone
      else if action_is (action entry) ''guild_update'' then
        Inr (Asset ''guild_icon'' [PInt (guild_id (env_guild ev)), data])
      else Inr (Asset ''icon'' [opt_int (raw_target_id entry), data, PStr ''role'']))"

definition transform_avatar :: Transformer where
  "transform_avatar ev entry data =
     (if data = PNone then Inr PNone
      else Inr (Asset ''avatar'' [opt_int (raw_target_id entry), data]))"

definition transform_cover_image :: Transformer where
  "transform_cover_image ev entry data =
     (if data = PNone then Inr PNone
      else Inr (Asset ''scheduled_event_cover_image'' [opt_int (raw_target_id entry), data]))"

definition guild_hash_transformer :: "string \<Rightarrow> Transformer" where
  "guild_hash_transformer path ev entry data =
     (if data = PNone then Inr PNone
      else Inr (Asset ''guild_image'' [PInt (guild_id (env_guild ev)), data, PStr path]))"

definition enum_transformer :: "string \<Rightarrow> Transformer" where
  "enum_transformer enum ev entry data = Inr (EnumValue enum data)"

definition flag_transformer :: "string \<Rightarrow> Transformer" where
  "flag_transformer cls ev entry data =
     (case py_int data of Inl e \<Rightarrow> Inl e | Inr n \<Rightarrow> Inr (Flags cls n))"

definition transform_type :: Transformer where
  "transform_type ev entry data =
     (if startswith (action_name (action entry)) ''sticker_''
      then Inr (EnumValue ''StickerType'' data)
      else Inr (EnumValue ''ChannelType'' data))"

definition TRANSFORMERS_table :: "(string \<times> string option \<times> Transformer option) list" where
  "TRANSFORMERS_table =
    [(''verification_level'', None, Some (enum_transformer ''VerificationLevel'')),
     (''explicit_content_filter'', None, Some (enum_transformer ''ContentFilter'')),
     (''allow'', None, Some (flag_transformer ''Permissions'')),
     (''deny'', None, Some (flag_transformer ''Permissions'')),
     (''permissions'', None, Some (flag_transformer ''Permissions'')),
     (''id'', None, Some transform_snowflake),
     (''color'', Some ''colour'', Some transform_color),
     (''owner_id'', Some ''owner'', Some transform_member_id),
     (''inviter_id'', Some ''inviter'', Some transform_member_id),
     (''channel_id'', Some ''channel'', Some transform_channel),
     (''afk_channel_id'', Some ''afk_channel'', Some transform_channel),
     (''system_channel_id'', Some ''system_channel'', Some transform_channel),
     (''system_channel_flags'', None, Some (flag_transformer ''SystemChannelFlags'')),
     (''widget_channel_id'', Some ''widget_channel'', Some transform_channel),
     (''rules_channel_id'', Some ''rules_channel'', Some transform_channel),
     (''public_updates_channel_id'', Some ''public_updates_channel'', Some transform_channel),
     (''permission_overwrites'', Some ''overwrites'', Some transform_overwrites),
     (''splash_hash'', Some ''splash'', Some (guild_hash_transformer ''splashes'')),
     (''banner_hash'', Some ''banner'', Some (guild_hash_transformer ''banners'')),
     (''discovery_splash_hash'', Some ''discovery_splash'',
        Some (guild_hash_transformer ''discovery-splashes'')),
     (''icon_hash'', Some ''icon'', Some transform_icon),
     (''avatar_hash'', Some ''avatar'', Some transform_avatar),
     (''rate_limit_per_user'', Some ''slowmode_delay'', None),
     (''guild_id'', Some ''guild'', Some transform_guild_id),
     (''tags'', Some ''emoji'', None),
     (''default_message_notifications'', Some ''default_notifications'',
        Some (enum_transformer ''NotificationLevel'')),
     (''video_quality_mode'', None, Some (enum_transformer ''VideoQualityMode'')),
     (''privacy_level'', None, Some (enum_transformer ''PrivacyLevel'')),
     (''format_type'', None, Some (enum_transformer ''StickerFormatType'')),
     (''type'', None, Some transform_type),
     (''communication_disabled_until'', Some ''timed_out_until'', Some transform_timestamp),
     (''expire_behavior'', None, Some (enum_transformer ''ExpireBehaviour'')),
     (''mfa_level'', None, Some (enum_transformer ''MFALevel'')),
     (''status'', None, Some (enum_transformer ''EventStatus'')),
     (''entity_type'', None, Some (enum_transformer ''EntityType'')),
     (''preferred_locale'', None, Some (enum_transformer ''Locale'')),
     (''image_hash'', Some ''cover_image'', Some transform_cover_image)]"

definition TRANSFORMERS :: "string \<Rightarrow> (string option \<times> Transformer option) option" where
  "TRANSFORMERS = map_of TRANSFORMERS_table"

section \<open>Change-set decoder\<close>

text \<open>The body of the loop of \<open>_handle_role\<close>: one role stub.\<close>

definition handle_role_elem :: "env \<Rightarrow> pyval \<Rightarrow> error + pyval" where
  "handle_role_elem ev e =
     (case int_item e ''id'' of
        Inl err \<Rightarrow> Inl err
      | Inr role_id \<Rightarrow>
          (case get_role (env_guild ev) role_id of
             Some role \<Rightarrow> Inr (Entity role)
           | None \<Rightarrow>
               (case getitem e ''name'' of
                  Inl err \<Rightarrow> Inl err
                | Inr nm \<Rightarrow> Inr (Object role_id (Some nm)))))"

text \<open>\<open>AuditLogChanges._handle_role\<close>; it returns the two containers it was given.\<close>

definition handle_role ::
  "AuditLogDiff \<Rightarrow> AuditLogDiff \<Rightarrow> env \<Rightarrow> pyval \<Rightarrow> error + (AuditLogDiff \<times> AuditLogDiff)" where
  "handle_role first second ev elem =
     (let first' = (if \<not> hasattr first ''roles'' then setattr first ''roles'' (PList []) else first)
      in case iterate elem of
           Inl err \<Rightarrow> Inl err
         | Inr es \<Rightarrow>
             (case map_result (handle_role_elem ev) es of
                Inl err \<Rightarrow> Inl err
              | Inr data \<Rightarrow> Inr (first', setattr second ''roles'' (PList data))))"

text \<open>\<open>d.app_command_permissions.append(x)\<close>\<close>

definition permissions_append :: "AuditLogDiff \<Rightarrow> pyval \<Rightarrow> error + AuditLogDiff" where
  "permissions_append d x =
     (case map_of d ''app_command_permissions'' of
        Some (PList xs) \<Rightarrow> Inr (setattr d ''app_command_permissions'' (PList (xs @ [x])))
      | _ \<Rightarrow> Inl AttributeError)"

text \<open>
  The end of \<open>_handle_app_command_permissions\<close>, from \<open>if target is None\<close> on: the target
  found so far is \<open>PNone\<close> when there is none.
\<close>

definition append_app_command_permissions ::
  "AuditLogDiff \<Rightarrow> AuditLogDiff \<Rightarrow> int \<Rightarrow> pyval \<Rightarrow> pyval \<Rightarrow> pyval
     \<Rightarrow> error + (AuditLogDiff \<times> AuditLogDiff)" where
  "append_app_command_permissions before after target_id target0 old_value new_value =
     (let target = (if target0 = PNone then Object target_id None else target0) in
      case (if old_value \<noteq> PNone then
              (case getitem old_value ''permission'' of
                 Inl e \<Rightarrow> Inl e
               | Inr old_permission \<Rightarrow> permissions_append before (PTuple [target, old_permission]))
            else Inr before) of
        Inl e \<Rightarrow> Inl e
      | Inr before' \<Rightarrow>
          (case (if new_value \<noteq> PNone then
                   (case getitem new_value ''permission'' of
                      Inl e \<Rightarrow> Inl e
                    | Inr new_permission \<Rightarrow> permissions_append after (PTuple [target, new_permission]))
                 else Inr after) of
             Inl e \<Rightarrow> Inl e
           | Inr after' \<Rightarrow> Inr (before', after')))"

text \<open>\<open>AuditLogChanges._handle_app_command_permissions\<close>\<close>

definition handle_app_command_permissions ::
  "AuditLogDiff \<Rightarrow> AuditLogDiff \<Rightarrow> env \<Rightarrow> int \<Rightarrow> pyval \<Rightarrow> pyval
     \<Rightarrow> error + (AuditLogDiff \<times> AuditLogDiff)" where
  "handle_app_command_permissions before after ev target_id old_value new_value =
     (let g = env_guild ev in
      if target_id = guild_id g - 1 then
        append_app_command_permissions before after target_id (AllChannels (guild_id g))
          old_value new_value
      else
        (let v = (if truthy old_value then old_value else new_value) in
         if v = PNone then Inr (before, after)
         else case getitem v ''type'' of
                Inl e \<Rightarrow> Inl e
              | Inr permission_type \<Rightarrow>
                  (let target =
                         (if eq_int permission_type 1 then
                            (case get_role g target_id of None \<Rightarrow> PNone | Some r \<Rightarrow> Entity r)
                          else if eq_int permission_type 2 then
                            entry_get_member ev (Some target_id)
                          else if eq_int permission_type 3 then
                            (case get_channel g target_id of None \<Rightarrow> PNone | Some c \<Rightarrow> Entity c)
                          else PNone)
                   in append_app_command_permissions before after target_id target
                        old_value new_value)))"

text \<open>The body of the loop over the records of an application-command permission update.\<close>

definition app_command_permissions_step ::
  "env \<Rightarrow> AuditLogDiff \<times> AuditLogDiff \<Rightarrow> pyval \<Rightarrow> error + (AuditLogDiff \<times> AuditLogDiff)" where
  "app_command_permissions_step ev s d =
     (case int_item d ''key'' of Inl e \<Rightarrow> Inl e | Inr target_id \<Rightarrow>
     (case dict_get d ''old_value'' of Inl e \<Rightarrow> Inl e | Inr old_value \<Rightarrow>
     (case dict_get d ''new_value'' of Inl e \<Rightarrow> Inl e | Inr new_value \<Rightarrow>
        handle_app_command_permissions (fst s) (snd s) ev target_id old_value new_value)))"

text \<open>
  One side of an ordinary record: \<open>try: v = elem[field]\<close>, \<open>except KeyError: v = None\<close>,
  \<open>else: if transformer: v = transformer(entry, v)\<close>.
\<close>

definition decode_side ::
  "env \<Rightarrow> AuditLogEntry \<Rightarrow> Transformer option \<Rightarrow> pyval \<Rightarrow> string \<Rightarrow> error + pyval" where
  "decode_side ev entry transformer elem field =
     (case getitem elem field of
        Inl KeyError \<Rightarrow> Inr PNone
      | Inl e \<Rightarrow> Inl e
      | Inr v \<Rightarrow> (case transformer of None \<Rightarrow> Inr v | Some t \<Rightarrow> t ev entry v))"

text \<open>
  The lookup in the registry: the attribute name written and the transformer, for a raw
  key.
\<close>

definition resolve :: "string \<Rightarrow> string \<times> Transformer option" where
  "resolve attr =
     (case TRANSFORMERS attr of
        None \<Rightarrow> (attr, None)
      | Some (key, transformer) \<Rightarrow>
          ((case key of None \<Rightarrow> attr | Some k \<Rightarrow> if k \<noteq> [] then k else attr), transformer))"

text \<open>
  The body of the main loop of \<open>AuditLogChanges.__init__\<close>: one raw change record. A key
  that is not a string cannot name an attribute: \<open>setattr\<close> raises TypeError.
\<close>

definition decode_change ::
  "env \<Rightarrow> AuditLogEntry \<Rightarrow> AuditLogDiff \<times> AuditLogDiff \<Rightarrow> pyval
     \<Rightarrow> error + (AuditLogDiff \<times> AuditLogDiff)" where
  "decode_change ev entry s elem =
     (case getitem elem ''key'' of
        Inl e \<Rightarrow> Inl e
      | Inr attr \<Rightarrow>
          if attr = PStr ''$add'' then
            (case getitem elem ''new_value'' of
               Inl e \<Rightarrow> Inl e
             | Inr nv \<Rightarrow>
                 (case handle_role (fst s) (snd s) ev nv of
                    Inl e \<Rightarrow> Inl e
                  | Inr (first, second) \<Rightarrow> Inr (first, second)))
          else if attr = PStr ''$remove'' then
            (case getitem elem ''new_value'' of
               Inl e \<Rightarrow> Inl e
             | Inr nv \<Rightarrow>
                 (case handle_role (snd s) (fst s) ev nv of
                    Inl e \<Rightarrow> Inl e
                  | Inr (first, second) \<Rightarrow> Inr (second, first)))
          else
            (case attr of
               PStr k \<Rightarrow>
                 (case decode_side ev entry (snd (resolve k)) elem ''old_value'' of
                    Inl e \<Rightarrow> Inl e
                  | Inr before \<Rightarrow>
                      (case decode_side ev entry (snd (resolve k)) elem ''new_value'' of
                         Inl e \<Rightarrow> Inl e
                       | Inr after \<Rightarrow>
                           Inr (setattr (fst s) (fst (resolve k)) before,
                                setattr (snd s) (fst (resolve k)) after)))
             | _ \<Rightarrow> Inl TypeError))"

text \<open>The aliases added after the loop.\<close>

definition add_alias ::
  "string \<Rightarrow> string \<Rightarrow> AuditLogDiff \<times> AuditLogDiff \<Rightarrow> error + (AuditLogDiff \<times> AuditLogDiff)" where
  "add_alias attr alias s =
     (if hasattr (snd s) attr then
        (case getattr (snd s) attr of
           Inl e \<Rightarrow> Inl e
         | Inr va \<Rightarrow>
             (case getattr (fst s) attr of
                Inl e \<Rightarrow> Inl e
              | Inr vb \<Rightarrow> Inr (setattr (fst s) alias vb, setattr (snd s) alias va)))
      else Inr s)"

definition add_aliases ::
  "AuditLogDiff \<times> AuditLogDiff \<Rightarrow> error + (AuditLogDiff \<times> AuditLogDiff)" where
  "add_aliases s =
     (case add_alias ''colour'' ''color'' s of
        Inl e \<Rightarrow> Inl e
      | Inr s' \<Rightarrow> add_alias ''expire_behavior'' ''expire_behaviour'' s')"

text \<open>The per-record algorithm with its aliases, from two empty containers.\<close>

definition decode_changes ::
  "env \<Rightarrow> AuditLogEntry \<Rightarrow> pyval list \<Rightarrow> error + (AuditLogDiff \<times> AuditLogDiff)" where
  "decode_changes ev entry elems =
     (case fold_result (decode_change ev entry) elems ([], []) of
        Inl e \<Rightarrow> Inl e
      | Inr s \<Rightarrow> add_aliases s)"

text \<open>\<open>AuditLogChanges.__init__\<close>: the pair \<open>(before, after)\<close> of the new object.\<close>

definition AuditLogChanges_init ::
  "env \<Rightarrow> AuditLogEntry \<Rightarrow> pyval \<Rightarrow> error + (AuditLogDiff \<times> AuditLogDiff)" where
  "AuditLogChanges_init ev entry data =
     (if action_is (action entry) ''app_command_permission_update'' then
        (case iterate data of
           Inl e \<Rightarrow> Inl e
         | Inr ds \<Rightarrow>
             fold_result (app_command_permissions_step ev) ds
               ([(''app_command_permissions'', PList [])],
                [(''app_command_permissions'', PList [])]))
      else
        (case iterate data of
           Inl e \<Rightarrow> Inl e
         | Inr elems \<Rightarrow> decode_changes ev entry elems))"

section \<open>Entry resolver\<close>

text \<open>\<open>found or Object(id=n)\<close> for an integer \<open>n\<close>.\<close>

definition entity_or_Object :: "obj option \<Rightarrow> int \<Rightarrow> pyval" where
  "entity_or_Object found n = (case found of Some r \<Rightarrow> Entity r | None \<Rightarrow> Object n None)"

text \<open>
  Modelled from the spec: \<open>utils._get_as_snowflake\<close> is not among the sources. It reads an
  optional integer: absent when the key is missing or null, the integer otherwise.
\<close>

definition get_as_snowflake :: "pyval \<Rightarrow> string \<Rightarrow> error + int option" where
  "get_as_snowflake data key =
     (case getitem data key of
        Inl KeyError \<Rightarrow> Inr None
      | Inl e \<Rightarrow> Inl e
      | Inr v \<Rightarrow>
          (if v = PNone then Inr None
           else case py_int v of Inl e \<Rightarrow> Inl e | Inr n \<Rightarrow> Inr (Some n)))"

text \<open>
  The chain of tests of \<open>_from_data\<close> that builds \<open>extra\<close> from the \<open>options\<close> block,
  entered when the action is a member of the enumeration and the block is not empty.
\<close>

definition extra_of_options :: "env \<Rightarrow> AuditLogAction \<Rightarrow> pyval \<Rightarrow> error + pyval" where
  "extra_of_options ev act opts =
     (if action_is act ''member_prune'' then
        (case int_item opts ''delete_member_days'' of Inl e \<Rightarrow> Inl e | Inr days \<Rightarrow>
           (case int_item opts ''members_removed'' of Inl e \<Rightarrow> Inl e | Inr removed \<Rightarrow>
              Inr (Proxy ''_AuditLogProxyMemberPrune''
                     [(''delete_member_days'', PInt days), (''members_removed'', PInt removed)])))
      else if action_is act ''member_move'' \<or> action_is act ''message_delete'' then
        (case int_item opts ''channel_id'' of Inl e \<Rightarrow> Inl e | Inr channel_id \<Rightarrow>
           (case int_item opts ''count'' of Inl e \<Rightarrow> Inl e | Inr count \<Rightarrow>
              Inr (Proxy ''_AuditLogProxyMemberMoveOrMessageDelete''
                     [(''count'', PInt count),
                      (''channel'',
                       entity_or_Object (get_channel_or_thread (env_guild ev) channel_id) channel_id)])))
      else if action_is act ''member_disconnect'' then
        (case int_item opts ''count'' of Inl e \<Rightarrow> Inl e | Inr count \<Rightarrow>
           Inr (Proxy ''_AuditLogProxyMemberDisconnect'' [(''count'', PInt count)]))
      else if endswith (action_name act) ''pin'' then
        (case int_item opts ''channel_id'' of Inl e \<Rightarrow> Inl e | Inr channel_id \<Rightarrow>
           (case int_item opts ''message_id'' of Inl e \<Rightarrow> Inl e | Inr message_id \<Rightarrow>
              Inr (Proxy ''_AuditLogProxyPinAction''
                     [(''channel'',
                       entity_or_Object (get_channel_or_thread (env_guild ev) channel_id) channel_id),
                      (''message_id'', PInt message_id)])))
      else if startswith (action_name act) ''overwrite_'' then
        (case int_item opts ''id'' of Inl e \<Rightarrow> Inl e | Inr instance_id \<Rightarrow>
           (case dict_get opts ''type'' of Inl e \<Rightarrow> Inl e | Inr the_type \<Rightarrow>
              (if the_type = PStr ''1'' then Inr (entry_get_member ev (Some instance_id))
               else if the_type = PStr ''0'' then
                 (case get_role (env_guild ev) instance_id of
                    Some role \<Rightarrow> Inr (Entity role)
                  | None \<Rightarrow>
                      (case dict_get opts ''role_name'' of
                         Inl e \<Rightarrow> Inl e
                       | Inr nm \<Rightarrow> Inr (Object instance_id (Some nm))))
               else Inr PNone)))
      else if startswith (action_name act) ''stage_instance'' then
        (case int_item opts ''channel_id'' of Inl e \<Rightarrow> Inl e | Inr channel_id \<Rightarrow>
           Inr (Proxy ''_AuditLogProxyStageInstanceAction''
                  [(''channel'', entity_or_Object (get_channel (env_guild ev) channel_id) channel_id)]))
      else if startswith (action_name act) ''app_command'' then
        (case int_item opts ''application_id'' of Inl e \<Rightarrow> Inl e | Inr app_id \<Rightarrow>
           Inr (entity_or_Object (get_integration_by_app_id ev (Some app_id)) app_id))
      else Inr PNone)"

text \<open>
  \<open>AuditLogEntry.__init__\<close> with \<open>_from_data\<close>: the entry built from a raw record, the
  table of the action enumeration and the lookup tables; no cached property is stored yet.
\<close>

definition from_data :: "action_table \<Rightarrow> env \<Rightarrow> pyval \<Rightarrow> error + AuditLogEntry" where
  "from_data tbl ev data =
     (case getitem data ''action_type'' of Inl e \<Rightarrow> Inl e | Inr action_type \<Rightarrow>
     (case int_item data ''id'' of Inl e \<Rightarrow> Inl e | Inr i \<Rightarrow>
     (case dict_get data ''reason'' of Inl e \<Rightarrow> Inl e | Inr rsn \<Rightarrow>
     (case dict_get data ''options'' of Inl e \<Rightarrow> Inl e | Inr opts \<Rightarrow>
     (case (if is_AuditLogAction (try_enum_action tbl action_type) \<and> truthy opts
            then extra_of_options ev (try_enum_action tbl action_type) opts
            else Inr PNone) of Inl e \<Rightarrow> Inl e | Inr ex \<Rightarrow>
     (case dict_get_default data ''changes'' (PList []) of Inl e \<Rightarrow> Inl e | Inr chs \<Rightarrow>
     (case get_as_snowflake data ''user_id'' of Inl e \<Rightarrow> Inl e | Inr user_id \<Rightarrow>
     (case get_as_snowflake data ''target_id'' of Inl e \<Rightarrow> Inl e | Inr tid \<Rightarrow>
        Inr \<lparr> action = try_enum_action tbl action_type,
              entry_id = i,
              reason = rsn,
              extra = ex,
              raw_changes = Some chs,
              user = entry_get_member ev user_id,
              raw_target_id = tid,
              cached_target = None,
              cached_category = None,
              cached_changes = None,
              cached_before = None,
              cached_after = None \<rparr>))))))))"

subsection \<open>Cached properties\<close>

text \<open>
  Modelled from the spec: \<open>utils.cached_property\<close> is not among the sources. A derived
  projection is computed on first access and stored on the instance; a later access
  returns what was stored. When the computation raises, nothing is stored. Each accessor
  returns its result with the entry as the access leaves it.
\<close>

text \<open>\<open>AuditLogEntry.category\<close>\<close>

definition entry_category :: "AuditLogEntry \<Rightarrow> pyval \<times> AuditLogEntry" where
  "entry_category e =
     (case cached_category e of
        Some c \<Rightarrow> (c, e)
      | None \<Rightarrow> (action_category (action e), e\<lparr>cached_category := Some (action_category (action e))\<rparr>))"

text \<open>\<open>AuditLogEntry.changes\<close>: the raw list is deleted once the decoder has returned.\<close>

definition entry_changes ::
  "env \<Rightarrow> AuditLogEntry \<Rightarrow> (error + (AuditLogDiff \<times> AuditLogDiff)) \<times> AuditLogEntry" where
  "entry_changes ev e =
     (case cached_changes e of
        Some c \<Rightarrow> (Inr c, e)
      | None \<Rightarrow>
          (case raw_changes e of
             None \<Rightarrow> (Inl AttributeError, e)
           | Some raw \<Rightarrow>
               (case AuditLogChanges_init ev e raw of
                  Inl err \<Rightarrow> (Inl err, e)
                | Inr c \<Rightarrow> (Inr c, e\<lparr>raw_changes := None, cached_changes := Some c\<rparr>))))"

text \<open>\<open>AuditLogEntry.before\<close>\<close>

definition entry_before :: "env \<Rightarrow> AuditLogEntry \<Rightarrow> (error + AuditLogDiff) \<times> AuditLogEntry" where
  "entry_before ev e =
     (case cached_before e of
        Some b \<Rightarrow> (Inr b, e)
      | None \<Rightarrow>
          (case entry_changes ev e of
             (Inl err, e') \<Rightarrow> (Inl err, e')
           | (Inr c, e') \<Rightarrow> (Inr (fst c), e'\<lparr>cached_before := Some (fst c)\<rparr>)))"

text \<open>\<open>AuditLogEntry.after\<close>\<close>

definition entry_after :: "env \<Rightarrow> AuditLogEntry \<Rightarrow> (error + AuditLogDiff) \<times> AuditLogEntry" where
  "entry_after ev e =
     (case cached_after e of
        Some a \<Rightarrow> (Inr a, e)
      | None \<Rightarrow>
          (case entry_changes ev e of
             (Inl err, e') \<Rightarrow> (Inl err, e')
           | (Inr c, e') \<Rightarrow> (Inr (snd c), e'\<lparr>cached_after := Some (snd c)\<rparr>)))"

text \<open>Reading the plain attribute \<open>extra\<close>.\<close>

definition entry_extra :: "env \<Rightarrow> AuditLogEntry \<Rightarrow> (error + pyval) \<times> AuditLogEntry" where
  "entry_extra ev e = (Inr (extra e), e)"

subsection \<open>Target resolvers\<close>

type_synonym converter = "env \<Rightarrow> AuditLogEntry \<Rightarrow> int option \<Rightarrow> (error + pyval) \<times> AuditLogEntry"

definition convert_target_guild :: converter where
  "convert_target_guild ev e tid = (Inr (Guild (guild_id (env_guild ev))), e)"

definition convert_target_channel :: converter where
  "convert_target_channel ev e tid =
     (or_Object (lookup (get_channel (env_guild ev)) tid) (opt_int tid), e)"

definition convert_target_user :: converter where
  "convert_target_user ev e tid = (Inr (entry_get_member ev tid), e)"

definition convert_target_role :: converter where
  "convert_target_role ev e tid =
     (or_Object (lookup (get_role (env_guild ev)) tid) (opt_int tid), e)"

text \<open>
  Modelled from the spec: the class \<open>Invite\<close> is not among the sources. The invite is the
  constructor applied to the synthetic payload, the guild and the channel; no inviter is
  attached by the constructor.
\<close>

definition invite_of_changeset :: "env \<Rightarrow> AuditLogDiff \<Rightarrow> error + pyval" where
  "invite_of_changeset ev changeset =
     (case getattr changeset ''max_age'' of Inl err \<Rightarrow> Inl err | Inr max_age \<Rightarrow>
     (case getattr changeset ''max_uses'' of Inl err \<Rightarrow> Inl err | Inr max_uses \<Rightarrow>
     (case getattr changeset ''code'' of Inl err \<Rightarrow> Inl err | Inr code \<Rightarrow>
     (case getattr changeset ''temporary'' of Inl err \<Rightarrow> Inl err | Inr temporary \<Rightarrow>
     (case getattr changeset ''uses'' of Inl err \<Rightarrow> Inl err | Inr uses \<Rightarrow>
     (case getattr changeset ''channel'' of Inl err \<Rightarrow> Inl err | Inr channel \<Rightarrow>
        (let fake_payload =
               PDict [(''max_age'', max_age), (''max_uses'', max_uses), (''code'', code),
                      (''temporary'', temporary), (''uses'', uses), (''channel'', PNone)];
             g = Guild (guild_id (env_guild ev))
         in case getattr changeset ''inviter'' of
              Inl AttributeError \<Rightarrow> Inr (Invite fake_payload g channel None)
            | Inl err \<Rightarrow> Inl err
            | Inr inviter \<Rightarrow> Inr (Invite fake_payload g channel (Some inviter)))))))))"

definition convert_target_invite :: converter where
  "convert_target_invite ev e tid =
     (case (if action_is (action e) ''invite_delete'' then entry_before ev e else entry_after ev e) of
        (Inl err, e') \<Rightarrow> (Inl err, e')
      | (Inr changeset, e') \<Rightarrow> (invite_of_changeset ev changeset, e'))"

definition convert_target_emoji :: converter where
  "convert_target_emoji ev e tid =
     (or_Object (lookup (get_emoji (env_state ev)) tid) (opt_int tid), e)"

definition convert_target_message :: converter where
  "convert_target_message ev e tid = (Inr (entry_get_member ev tid), e)"

definition convert_target_stage_instance :: converter where
  "convert_target_stage_instance ev e tid =
     (or_Object (lookup (get_stage_instance (env_guild ev)) tid) (opt_int tid), e)"

definition convert_target_sticker :: converter where
  "convert_target_sticker ev e tid =
     (or_Object (lookup (get_sticker (env_state ev)) tid) (opt_int tid), e)"

definition convert_target_thread :: converter where
  "convert_target_thread ev e tid =
     (or_Object (lookup (get_thread (env_guild ev)) tid) (opt_int tid), e)"

definition convert_target_guild_scheduled_event :: converter where
  "convert_target_guild_scheduled_event ev e tid =
     (or_Object (lookup (get_scheduled_event (env_guild ev)) tid) (opt_int tid), e)"

definition convert_target_integration :: converter where
  "convert_target_integration ev e tid =
     (or_Object (get_integration ev tid) (opt_int tid), e)"

definition convert_target_app_command :: converter where
  "convert_target_app_command ev e tid =
     (or_Object (get_app_command ev tid) (opt_int tid), e)"

definition convert_target_integration_or_app_command :: converter where
  "convert_target_integration_or_app_command ev e tid =
     (or_Object
        (case get_integration_by_app_id ev tid of
           Some i \<Rightarrow> Some i
         | None \<Rightarrow> get_app_command ev tid)
        (opt_int tid), e)"

text \<open>
  \<open>getattr(self, '_convert_target_' + kind)\<close>: the resolver methods of the class, by the
  name of the target kind; \<open>None\<close> stands for AttributeError.
\<close>

definition converters :: "(string \<times> converter) list" where
  "converters =
     [(''guild'', convert_target_guild),
      (''channel'', convert_target_channel),
      (''user'', convert_target_user),
      (''role'', convert_target_role),
      (''invite'', convert_target_invite),
      (''emoji'', convert_target_emoji),
      (''message'', convert_target_message),
      (''stage_instance'', convert_target_stage_instance),
      (''sticker'', convert_target_sticker),
      (''thread'', convert_target_thread),
      (''guild_scheduled_event'', convert_target_guild_scheduled_event),
      (''integration'', convert_target_integration),
      (''app_command'', convert_target_app_command),
      (''integration_or_app_command'', convert_target_integration_or_app_command)]"

text \<open>The body of the property \<open>AuditLogEntry.target\<close>.\<close>

definition target_body :: "env \<Rightarrow> AuditLogEntry \<Rightarrow> (error + pyval) \<times> AuditLogEntry" where
  "target_body ev e =
     (case action_target_type (action e) of
        None \<Rightarrow> (Inr PNone, e)
      | Some kind \<Rightarrow>
          (case map_of converters kind of
             None \<Rightarrow>
               (case raw_target_id e of
                  None \<Rightarrow> (Inr PNone, e)
                | Some n \<Rightarrow> (Inr (Object n None), e))
           | Some converter \<Rightarrow> converter ev e (raw_target_id e)))"

text \<open>\<open>AuditLogEntry.target\<close>\<close>

definition entry_target :: "env \<Rightarrow> AuditLogEntry \<Rightarrow> (error + pyval) \<times> AuditLogEntry" where
  "entry_target ev e =
     (case cached_target e of
        Some t \<Rightarrow> (Inr t, e)
      | None \<Rightarrow>
          (case target_body ev e of
             (Inl err, e') \<Rightarrow> (Inl err, e')
           | (Inr t, e') \<Rightarrow> (Inr t, e'\<lparr>cached_target := Some t\<rparr>)))"
section \<open>Notions used in the statements\<close>

text \<open>The raw record \<open>elem\<close> has the string \<open>k\<close> as its key.\<close>

definition is_key :: "pyval \<Rightarrow> string \<Rightarrow> bool" where
  "is_key elem k = (getitem elem ''key'' = Inr (PStr k))"

text \<open>The loop of \<open>_handle_role\<close> over a list of role stubs: the decoded roles.\<close>

definition role_list :: "env \<Rightarrow> pyval \<Rightarrow> error + pyval list" where
  "role_list ev nv =
     (case iterate nv of Inl e \<Rightarrow> Inl e | Inr es \<Rightarrow> map_result (handle_role_elem ev) es)"

text \<open>
  The attribute a raw record assigns on the containers: \<open>roles\<close> for the two role records,
  the name the registry resolves the key to otherwise.
\<close>

definition written_attr :: "pyval \<Rightarrow> string option" where
  "written_attr elem =
     (case getitem elem ''key'' of
        Inr (PStr k) \<Rightarrow>
          if k = ''$add'' \<or> k = ''$remove'' then Some ''roles'' else Some (fst (resolve k))
      | _ \<Rightarrow> None)"

text \<open>The first statement of \<open>_handle_role\<close>: an empty \<open>roles\<close> list where there is none.\<close>

definition ensure_roles :: "AuditLogDiff \<Rightarrow> AuditLogDiff" where
  "ensure_roles d = (if hasattr d ''roles'' then d else setattr d ''roles'' (PList []))"

text \<open>
  The target of one record of an application-command permission update, in the words of
  the claim: the sentinel id gives the all-channels object; otherwise the discriminator
  \<open>type\<close> of whichever of the old and the new value is present selects the lookup
  (1 role, 2 user, 3 channel), and a miss gives the opaque reference.
\<close>

definition permission_target :: "env \<Rightarrow> int \<Rightarrow> pyval \<Rightarrow> pyval \<Rightarrow> pyval" where
  "permission_target ev target_id old_value new_value =
     (if target_id = guild_id (env_guild ev) - 1 then AllChannels (guild_id (env_guild ev))
      else
        (case getitem (if old_value \<noteq> PNone then old_value else new_value) ''type'' of
           Inr t \<Rightarrow>
             if eq_int t 1 then entity_or_Object (get_role (env_guild ev) target_id) target_id
             else if eq_int t 2 then
               (if entry_get_member ev (Some target_id) = PNone then Object target_id None
                else entry_get_member ev (Some target_id))
             else if eq_int t 3 then
               entity_or_Object (get_channel (env_guild ev) target_id) target_id
             else Object target_id None
         | Inl e \<Rightarrow> Object target_id None))"

text \<open>
  The pairs \<open>(target, permission)\<close> one record contributes to a container: one pair when
  the record has a value on that side (\<open>field\<close> is \<open>old_value\<close> for \<open>before\<close>,
  \<open>new_value\<close> for \<open>after\<close>), none otherwise.
\<close>

definition permission_pairs :: "env \<Rightarrow> pyval \<Rightarrow> string \<Rightarrow> pyval list" where
  "permission_pairs ev d field =
     (case (int_item d ''key'', dict_get d ''old_value'', dict_get d ''new_value'', dict_get d field) of
        (Inr target_id, Inr ov, Inr nv, Inr v) \<Rightarrow>
          (if v = PNone then []
           else case getitem v ''permission'' of
                  Inr p \<Rightarrow> [PTuple [permission_target ev target_id ov nv, p]]
                | Inl e \<Rightarrow> [])
      | _ \<Rightarrow> [])"

text \<open>
  What the cached properties maintain: a stored \<open>before\<close> or \<open>after\<close> is the component of
  the stored \<open>changes\<close>.
\<close>

definition caches_consistent :: "AuditLogEntry \<Rightarrow> bool" where
  "caches_consistent e =
     ((case cached_before e of
         None \<Rightarrow> True
       | Some b \<Rightarrow> (case cached_changes e of None \<Rightarrow> False | Some c \<Rightarrow> fst c = b))
      \<and> (case cached_after e of
            None \<Rightarrow> True
          | Some a \<Rightarrow> (case cached_changes e of None \<Rightarrow> False | Some c \<Rightarrow> snd c = a)))"

section \<open>Sample inputs\<close>

definition sample_guild :: guild where
  "sample_guild =
     \<lparr> guild_id = 10,
       get_role = (\<lambda>i. if i = 1 then Some 100 else None),
       get_channel = (\<lambda>i. if i = 2 then Some 200 else None),
       get_channel_or_thread = (\<lambda>i. if i = 2 then Some 200 else None),
       get_member = (\<lambda>i. if i = 3 then Some 300 else None),
       get_stage_instance = (\<lambda>i. None),
       get_scheduled_event = (\<lambda>i. None),
       get_thread = (\<lambda>i. None) \<rparr>"

definition sample_env :: env where
  "sample_env =
     \<lparr> env_guild = sample_guild,
       env_state = \<lparr> get_emoji = (\<lambda>i. None), get_sticker = (\<lambda>i. None), get_guild = (\<lambda>i. None) \<rparr>,
       users = (\<lambda>i. None),
       integrations = [],
       app_commands = (\<lambda>i. None) \<rparr>"

definition sample_entry :: "AuditLogAction \<Rightarrow> int option \<Rightarrow> pyval \<Rightarrow> AuditLogEntry" where
  "sample_entry act tid chs =
     \<lparr> action = act, entry_id = 77, reason = PNone, extra = PNone, raw_changes = Some chs,
       user = PNone, raw_target_id = tid, cached_target = None, cached_category = None,
       cached_changes = None, cached_before = None, cached_after = None \<rparr>"

definition role_update :: AuditLogAction where
  "role_update = EnumMember ''member_role_update'' 25 (PInt 3) (Some ''user'')"

definition permission_update :: AuditLogAction where
  "permission_update =
     EnumMember ''app_command_permission_update'' 121 (PInt 3) (Some ''integration_or_app_command'')"

definition empty_env :: env where
  "empty_env =
     \<lparr> env_guild =
         \<lparr> guild_id = 10,
           get_role = (\<lambda>i. None), get_channel = (\<lambda>i. None),
           get_channel_or_thread = (\<lambda>i. None), get_member = (\<lambda>i. None),
           get_stage_instance = (\<lambda>i. None), get_scheduled_event = (\<lambda>i. None),
           get_thread = (\<lambda>i. None) \<rparr>,
       env_state = \<lparr> get_emoji = (\<lambda>i. None), get_sticker = (\<lambda>i. None), get_guild = (\<lambda>i. None) \<rparr>,
       users = (\<lambda>i. None),
       integrations = [],
       app_commands = (\<lambda>i. None) \<rparr>"

definition sample_actions :: action_table where
  "sample_actions =
     (\<lambda>n. if n = 25 then Some (''member_role_update'', PInt 3, Some ''user'')
          else if n = 42 then Some (''invite_delete'', PInt 2, Some ''invite'')
          else None)"

definition guild_role_update :: AuditLogAction where
  "guild_role_update = EnumMember ''role_update'' 31 (PInt 3) (Some ''role'')"

definition invite_delete :: AuditLogAction where
  "invite_delete = EnumMember ''invite_delete'' 42 (PInt 2) (Some ''invite'')"

definition sample_invite_changes :: pyval where
  "sample_invite_changes =
     PList [PDict [(''key'', PStr ''code''), (''old_value'', PStr ''abc'')],
            PDict [(''key'', PStr ''max_age''), (''old_value'', PInt 0)],
            PDict [(''key'', PStr ''max_uses''), (''old_value'', PInt 0)],
            PDict [(''key'', PStr ''temporary''), (''old_value'', PBool False)],
            PDict [(''key'', PStr ''uses''), (''old_value'', PInt 1)],
            PDict [(''key'', PStr ''channel_id''), (''old_value'', PStr ''2'')]]"
section \<open>Properties of the decoder loop\<close>

lemma map_of_setattr: "map_of (setattr d k v) = (map_of d)(k \<mapsto> v)"
  by (induction d) auto

lemma hasattr_setattr: "hasattr (setattr d k v) k' = (k' = k \<or> hasattr d k')"
  by (simp add: hasattr_def map_of_setattr)

lemma fold_result_append:
  "fold_result f (xs @ ys) s =
     (case fold_result f xs s of Inl e \<Rightarrow> Inl e | Inr s' \<Rightarrow> fold_result f ys s')"
  by (induction xs arbitrary: s) (auto split: sum.splits)

lemma handle_role_eq:
  "handle_role first second ev nv =
     (case role_list ev nv of
        Inl e \<Rightarrow> Inl e
      | Inr data \<Rightarrow> Inr (ensure_roles first, setattr second ''roles'' (PList data)))"
  by (simp add: handle_role_def role_list_def ensure_roles_def Let_def split: sum.splits)

lemma decode_change_add:
  "is_key x ''$add'' \<Longrightarrow>
   decode_change ev entry (b, a) x =
     (case getitem x ''new_value'' of
        Inl e \<Rightarrow> Inl e
      | Inr nv \<Rightarrow>
          (case role_list ev nv of
             Inl e \<Rightarrow> Inl e
           | Inr data \<Rightarrow> Inr (ensure_roles b, setattr a ''roles'' (PList data))))"
  by (simp add: is_key_def decode_change_def handle_role_eq split: sum.splits)

lemma decode_change_remove:
  "is_key x ''$remove'' \<Longrightarrow>
   decode_change ev entry (b, a) x =
     (case getitem x ''new_value'' of
        Inl e \<Rightarrow> Inl e
      | Inr nv \<Rightarrow>
          (case role_list ev nv of
             Inl e \<Rightarrow> Inl e
           | Inr data \<Rightarrow> Inr (setattr b ''roles'' (PList data), ensure_roles a)))"
  by (simp add: is_key_def decode_change_def handle_role_eq split: sum.splits)

lemma decode_change_other:
  "is_key x k \<Longrightarrow> k \<noteq> ''$add'' \<Longrightarrow> k \<noteq> ''$remove'' \<Longrightarrow>
   decode_change ev entry (b, a) x =
     (case decode_side ev entry (snd (resolve k)) x ''old_value'' of
        Inl e \<Rightarrow> Inl e
      | Inr vb \<Rightarrow>
          (case decode_side ev entry (snd (resolve k)) x ''new_value'' of
             Inl e \<Rightarrow> Inl e
           | Inr va \<Rightarrow> Inr (setattr b (fst (resolve k)) vb, setattr a (fst (resolve k)) va)))"
  by (simp add: is_key_def decode_change_def split: sum.splits)

lemma decode_change_key:
  "decode_change ev entry s x = Inr s' \<Longrightarrow> \<exists>k. is_key x k"
  by (auto simp: is_key_def decode_change_def split: sum.splits pyval.splits if_splits)

lemma resolve_unregistered: "TRANSFORMERS k = None \<Longrightarrow> resolve k = (k, None)"
  by (simp add: resolve_def)

lemma resolve_roles: "fst (resolve k) = ''roles'' \<Longrightarrow> k = ''roles''"
  by (simp add: resolve_def TRANSFORMERS_def TRANSFORMERS_table_def split: if_splits)

lemma map_of_ensure_roles:
  "map_of (ensure_roles d) k =
     (if k = ''roles'' \<and> map_of d ''roles'' = None then Some (PList []) else map_of d k)"
  by (auto simp: ensure_roles_def hasattr_def map_of_setattr)

lemma written_attr_key:
  "is_key x k \<Longrightarrow>
   written_attr x = (if k = ''$add'' \<or> k = ''$remove'' then Some ''roles'' else Some (fst (resolve k)))"
  by (simp add: is_key_def written_attr_def)

lemma decode_change_preserves:
  assumes "decode_change ev entry (b, a) x = Inr (b', a')" and "written_attr x \<noteq> Some k"
  shows "map_of b' k = map_of b k \<and> map_of a' k = map_of a k"
proof -
  from assms(1) obtain k0 where k0: "is_key x k0"
    using decode_change_key by blast
  consider "k0 = ''$add''" | "k0 = ''$remove''" | "k0 \<noteq> ''$add''" "k0 \<noteq> ''$remove''"
    by blast
  then show ?thesis
  proof cases
    case 1
    with k0 assms show ?thesis
      by (auto simp: decode_change_add written_attr_key map_of_ensure_roles map_of_setattr
          split: sum.splits)
  next
    case 2
    with k0 assms show ?thesis
      by (auto simp: decode_change_remove written_attr_key map_of_ensure_roles map_of_setattr
          split: sum.splits)
  next
    case 3
    with k0 assms show ?thesis
      by (auto simp: decode_change_other written_attr_key map_of_setattr split: sum.splits)
  qed
qed

lemma fold_decode_preserves:
  "fold_result (decode_change ev entry) xs (b, a) = Inr (b', a') \<Longrightarrow>
   \<forall>x\<in>set xs. written_attr x \<noteq> Some k \<Longrightarrow>
   map_of b' k = map_of b k \<and> map_of a' k = map_of a k"
proof (induction xs arbitrary: b a)
  case Nil
  then show ?case by simp
next
  case (Cons x xs)
  from Cons.prems(1) obtain b1 a1 where
    step: "decode_change ev entry (b, a) x = Inr (b1, a1)" and
    rest: "fold_result (decode_change ev entry) xs (b1, a1) = Inr (b', a')"
    by (auto split: sum.splits)
  from Cons.prems(2) have "written_attr x \<noteq> Some k" by simp
  with step have "map_of b1 k = map_of b k \<and> map_of a1 k = map_of a k"
    by (rule decode_change_preserves)
  moreover from Cons.IH[OF rest] Cons.prems(2)
  have "map_of b' k = map_of b1 k \<and> map_of a' k = map_of a1 k" by simp
  ultimately show ?case by simp
qed

lemma add_alias_other:
  "add_alias attr alias (b, a) = Inr (b', a') \<Longrightarrow> k \<noteq> alias \<Longrightarrow>
   map_of b' k = map_of b k \<and> map_of a' k = map_of a k"
  by (auto simp: add_alias_def map_of_setattr split: if_splits sum.splits)

lemma add_alias_absent:
  "\<not> hasattr a attr \<Longrightarrow> add_alias attr alias (b, a) = Inr (b, a)"
  by (simp add: add_alias_def)

lemma decode_side_unregistered:
  "is_key r k \<Longrightarrow>
   decode_side ev entry None r field =
     Inr (case getitem r field of Inr v \<Rightarrow> v | Inl e \<Rightarrow> PNone)"
  by (cases r) (auto simp: is_key_def decode_side_def split: option.splits)

lemma unregistered_not_colour: "TRANSFORMERS k = None \<Longrightarrow> k \<noteq> ''color''"
  by (auto simp: TRANSFORMERS_def TRANSFORMERS_table_def)

lemma decode_change_hasattr:
  assumes "decode_change ev entry (b, a) x = Inr (b', a')"
  shows "\<exists>k. written_attr x = Some k \<and>
             (\<forall>f. hasattr b' f = (f = k \<or> hasattr b f)) \<and>
             (\<forall>f. hasattr a' f = (f = k \<or> hasattr a f))"
proof -
  from assms obtain k0 where k0: "is_key x k0"
    using decode_change_key by blast
  consider "k0 = ''$add''" | "k0 = ''$remove''" | "k0 \<noteq> ''$add''" "k0 \<noteq> ''$remove''"
    by blast
  then show ?thesis
  proof cases
    case 1
    with k0 assms show ?thesis
      by (auto simp: decode_change_add written_attr_key hasattr_def map_of_ensure_roles
          map_of_setattr split: sum.splits)
  next
    case 2
    with k0 assms show ?thesis
      by (auto simp: decode_change_remove written_attr_key hasattr_def map_of_ensure_roles
          map_of_setattr split: sum.splits)
  next
    case 3
    with k0 assms show ?thesis
      by (auto simp: decode_change_other written_attr_key hasattr_def map_of_setattr
          split: sum.splits)
  qed
qed

lemma fold_decode_hasattr:
  "fold_result (decode_change ev entry) xs (b, a) = Inr (b', a') \<Longrightarrow>
   (\<forall>f. hasattr b' f = (Some f \<in> written_attr ` set xs \<or> hasattr b f)) \<and>
   (\<forall>f. hasattr a' f = (Some f \<in> written_attr ` set xs \<or> hasattr a f))"
proof (induction xs arbitrary: b a)
  case Nil
  then show ?case by simp
next
  case (Cons x xs)
  from Cons.prems obtain b1 a1 where
    step: "decode_change ev entry (b, a) x = Inr (b1, a1)" and
    rest: "fold_result (decode_change ev entry) xs (b1, a1) = Inr (b', a')"
    by (auto split: sum.splits)
  from decode_change_hasattr[OF step] obtain k where
    k: "written_attr x = Some k"
       "\<forall>f. hasattr b1 f = (f = k \<or> hasattr b f)"
       "\<forall>f. hasattr a1 f = (f = k \<or> hasattr a f)"
    by blast
  from Cons.IH[OF rest] k show ?case by auto
qed

lemma add_alias_result:
  assumes "add_alias attr al (b, a) = Inr (b', a')" "hasattr a attr" "attr \<noteq> al"
  shows "hasattr b attr \<and> map_of a' al = map_of a attr \<and> map_of b' al = map_of b attr"
  using assms
  by (auto simp: add_alias_def getattr_def hasattr_def map_of_setattr split: option.splits)


lemma entry_target_fresh:
  "cached_target e = None \<Longrightarrow> target_body ev e = (r, e') \<Longrightarrow> fst (entry_target ev e) = r"
  by (cases r) (simp_all add: entry_target_def)

lemma not_roles_writer:
  "\<not> is_key z ''$add'' \<Longrightarrow> \<not> is_key z ''$remove'' \<Longrightarrow> \<not> is_key z ''roles'' \<Longrightarrow>
   written_attr z \<noteq> Some ''roles''"
  by (auto simp: written_attr_def is_key_def split: sum.splits pyval.splits dest: resolve_roles)

lemma decode_change_after_roles_kept:
  assumes "decode_change ev entry (b, a) x = Inr (b', a')"
    and "\<not> is_key x ''$add''" "\<not> is_key x ''roles''" "map_of a ''roles'' = Some v"
  shows "map_of a' ''roles'' = Some v"
proof (cases "is_key x ''$remove''")
  case True
  with assms show ?thesis
    by (auto simp: decode_change_remove map_of_ensure_roles split: sum.splits)
next
  case False
  with assms have "written_attr x \<noteq> Some ''roles''" by (simp add: not_roles_writer)
  from decode_change_preserves[OF assms(1) this] assms(4) show ?thesis by simp
qed

lemma decode_change_before_roles_kept:
  assumes "decode_change ev entry (b, a) x = Inr (b', a')"
    and "\<not> is_key x ''$remove''" "\<not> is_key x ''roles''" "map_of b ''roles'' = Some v"
  shows "map_of b' ''roles'' = Some v"
proof (cases "is_key x ''$add''")
  case True
  with assms show ?thesis
    by (auto simp: decode_change_add map_of_ensure_roles split: sum.splits)
next
  case False
  with assms have "written_attr x \<noteq> Some ''roles''" by (simp add: not_roles_writer)
  from decode_change_preserves[OF assms(1) this] assms(4) show ?thesis by simp
qed

lemma fold_after_roles_kept:
  "fold_result (decode_change ev entry) q (b, a) = Inr (b', a') \<Longrightarrow>
   \<forall>z\<in>set q. \<not> is_key z ''$add'' \<and> \<not> is_key z ''roles'' \<Longrightarrow>
   map_of a ''roles'' = Some v \<Longrightarrow> map_of a' ''roles'' = Some v"
proof (induction q arbitrary: b a)
  case Nil
  then show ?case by simp
next
  case (Cons x q)
  from Cons.prems(1) obtain b1 a1 where
    step: "decode_change ev entry (b, a) x = Inr (b1, a1)" and
    rest: "fold_result (decode_change ev entry) q (b1, a1) = Inr (b', a')"
    by (auto split: sum.splits)
  from Cons.prems(2) have "\<not> is_key x ''$add''" "\<not> is_key x ''roles''" by simp_all
  from decode_change_after_roles_kept[OF step this Cons.prems(3)]
  have "map_of a1 ''roles'' = Some v" .
  with Cons.IH[OF rest] Cons.prems(2) show ?case by simp
qed

lemma fold_before_roles_kept:
  "fold_result (decode_change ev entry) q (b, a) = Inr (b', a') \<Longrightarrow>
   \<forall>z\<in>set q. \<not> is_key z ''$remove'' \<and> \<not> is_key z ''roles'' \<Longrightarrow>
   map_of b ''roles'' = Some v \<Longrightarrow> map_of b' ''roles'' = Some v"
proof (induction q arbitrary: b a)
  case Nil
  then show ?case by simp
next
  case (Cons x q)
  from Cons.prems(1) obtain b1 a1 where
    step: "decode_change ev entry (b, a) x = Inr (b1, a1)" and
    rest: "fold_result (decode_change ev entry) q (b1, a1) = Inr (b', a')"
    by (auto split: sum.splits)
  from Cons.prems(2) have "\<not> is_key x ''$remove''" "\<not> is_key x ''roles''" by simp_all
  from decode_change_before_roles_kept[OF step this Cons.prems(3)]
  have "map_of b1 ''roles'' = Some v" .
  with Cons.IH[OF rest] Cons.prems(2) show ?case by simp
qed

lemma add_aliases_roles:
  "add_aliases (b, a) = Inr (b', a') \<Longrightarrow>
   map_of b' ''roles'' = map_of b ''roles'' \<and> map_of a' ''roles'' = map_of a ''roles''"
proof -
  assume al: "add_aliases (b, a) = Inr (b', a')"
  then obtain b4 a4 where
    c: "add_alias ''colour'' ''color'' (b, a) = Inr (b4, a4)" and
    e: "add_alias ''expire_behavior'' ''expire_behaviour'' (b4, a4) = Inr (b', a')"
    by (auto simp: add_aliases_def split: sum.splits)
  from add_alias_other[OF c, of "''roles''"] add_alias_other[OF e, of "''roles''"]
  show ?thesis by simp
qed

text \<open>The loop split at one record.\<close>

lemma decode_split:
  assumes nacp: "\<not> action_is (action entry) ''app_command_permission_update''"
    and ok: "AuditLogChanges_init ev entry (PList (p @ x # q)) = Inr (b, a)"
  shows "\<exists>b1 a1 b2 a2 b3 a3.
    fold_result (decode_change ev entry) p ([], []) = Inr (b1, a1) \<and>
    decode_change ev entry (b1, a1) x = Inr (b2, a2) \<and>
    fold_result (decode_change ev entry) q (b2, a2) = Inr (b3, a3) \<and>
    add_aliases (b3, a3) = Inr (b, a)"
proof -
  from nacp ok obtain b3 a3 where
    loop: "fold_result (decode_change ev entry) (p @ x # q) ([], []) = Inr (b3, a3)" and
    al: "add_aliases (b3, a3) = Inr (b, a)"
    by (auto simp: AuditLogChanges_init_def decode_changes_def split: sum.splits)
  from loop obtain b1 a1 b2 a2 where
    "fold_result (decode_change ev entry) p ([], []) = Inr (b1, a1)"
    "decode_change ev entry (b1, a1) x = Inr (b2, a2)"
    "fold_result (decode_change ev entry) q (b2, a2) = Inr (b3, a3)"
    by (auto simp: fold_result_append split: sum.splits)
  with al show ?thesis by blast
qed

lemma last_add_roles:
  assumes nacp: "\<not> action_is (action entry) ''app_command_permission_update''"
    and ok: "AuditLogChanges_init ev entry (PList (p @ x # q)) = Inr (b, a)"
    and x: "is_key x ''$add''" "getitem x ''new_value'' = Inr nv"
    and q: "\<forall>z\<in>set q. \<not> is_key z ''$add'' \<and> \<not> is_key z ''roles''"
  shows "\<exists>data. role_list ev nv = Inr data \<and> map_of a ''roles'' = Some (PList data)"
proof -
  from decode_split[OF nacp ok] obtain b1 a1 b2 a2 b3 a3 where
    step: "decode_change ev entry (b1, a1) x = Inr (b2, a2)" and
    post: "fold_result (decode_change ev entry) q (b2, a2) = Inr (b3, a3)" and
    al: "add_aliases (b3, a3) = Inr (b, a)"
    by blast
  from step x have
    "(case role_list ev nv of
        Inl e \<Rightarrow> Inl e
      | Inr data \<Rightarrow> Inr (ensure_roles b1, setattr a1 ''roles'' (PList data))) = Inr (b2, a2)"
    by (simp add: decode_change_add)
  then obtain data where
    d: "role_list ev nv = Inr data" "map_of a2 ''roles'' = Some (PList data)"
    by (cases "role_list ev nv") (auto simp: map_of_setattr)
  from fold_after_roles_kept[OF post q d(2)] add_aliases_roles[OF al] d(1)
  show ?thesis by simp
qed

lemma last_remove_roles:
  assumes nacp: "\<not> action_is (action entry) ''app_command_permission_update''"
    and ok: "AuditLogChanges_init ev entry (PList (p @ x # q)) = Inr (b, a)"
    and x: "is_key x ''$remove''" "getitem x ''new_value'' = Inr nv"
    and q: "\<forall>z\<in>set q. \<not> is_key z ''$remove'' \<and> \<not> is_key z ''roles''"
  shows "\<exists>data. role_list ev nv = Inr data \<and> map_of b ''roles'' = Some (PList data)"
proof -
  from decode_split[OF nacp ok] obtain b1 a1 b2 a2 b3 a3 where
    step: "decode_change ev entry (b1, a1) x = Inr (b2, a2)" and
    post: "fold_result (decode_change ev entry) q (b2, a2) = Inr (b3, a3)" and
    al: "add_aliases (b3, a3) = Inr (b, a)"
    by blast
  from step x have
    "(case role_list ev nv of
        Inl e \<Rightarrow> Inl e
      | Inr data \<Rightarrow> Inr (setattr b1 ''roles'' (PList data), ensure_roles a1)) = Inr (b2, a2)"
    by (simp add: decode_change_remove)
  then obtain data where
    d: "role_list ev nv = Inr data" "map_of b2 ''roles'' = Some (PList data)"
    by (cases "role_list ev nv") (auto simp: map_of_setattr)
  from fold_before_roles_kept[OF post q d(2)] add_aliases_roles[OF al] d(1)
  show ?thesis by simp
qed

lemma only_adds_before_empty:
  assumes nacp: "\<not> action_is (action entry) ''app_command_permission_update''"
    and ok: "AuditLogChanges_init ev entry (PList elems) = Inr (b, a)"
    and ex: "\<exists>x\<in>set elems. is_key x ''$add''"
    and no: "\<forall>z\<in>set elems. \<not> is_key z ''$remove'' \<and> \<not> is_key z ''roles''"
  shows "map_of b ''roles'' = Some (PList [])"
proof -
  from ex obtain p x q where
    sp: "elems = p @ x # q" "is_key x ''$add''" "\<forall>z\<in>set p. \<not> is_key z ''$add''"
    by (auto simp: split_list_first_prop_iff)
  from decode_split[OF nacp ok[unfolded sp(1)]] obtain b1 a1 b2 a2 b3 a3 where
    pre: "fold_result (decode_change ev entry) p ([], []) = Inr (b1, a1)" and
    step: "decode_change ev entry (b1, a1) x = Inr (b2, a2)" and
    post: "fold_result (decode_change ev entry) q (b2, a2) = Inr (b3, a3)" and
    al: "add_aliases (b3, a3) = Inr (b, a)"
    by blast
  from sp no have "\<forall>z\<in>set p. written_attr z \<noteq> Some ''roles''"
    by (simp add: not_roles_writer)
  from fold_decode_preserves[OF pre this] have "map_of b1 ''roles'' = None" by simp
  with step sp(2) have b2: "map_of b2 ''roles'' = Some (PList [])"
    by (auto simp: decode_change_add map_of_ensure_roles split: sum.splits)
  from sp no have "\<forall>z\<in>set q. \<not> is_key z ''$remove'' \<and> \<not> is_key z ''roles''" by simp
  from fold_before_roles_kept[OF post this b2] add_aliases_roles[OF al]
  show ?thesis by simp
qed

lemma only_removes_after_empty:
  assumes nacp: "\<not> action_is (action entry) ''app_command_permission_update''"
    and ok: "AuditLogChanges_init ev entry (PList elems) = Inr (b, a)"
    and ex: "\<exists>x\<in>set elems. is_key x ''$remove''"
    and no: "\<forall>z\<in>set elems. \<not> is_key z ''$add'' \<and> \<not> is_key z ''roles''"
  shows "map_of a ''roles'' = Some (PList [])"
proof -
  from ex obtain p x q where
    sp: "elems = p @ x # q" "is_key x ''$remove''" "\<forall>z\<in>set p. \<not> is_key z ''$remove''"
    by (auto simp: split_list_first_prop_iff)
  from decode_split[OF nacp ok[unfolded sp(1)]] obtain b1 a1 b2 a2 b3 a3 where
    pre: "fold_result (decode_change ev entry) p ([], []) = Inr (b1, a1)" and
    step: "decode_change ev entry (b1, a1) x = Inr (b2, a2)" and
    post: "fold_result (decode_change ev entry) q (b2, a2) = Inr (b3, a3)" and
    al: "add_aliases (b3, a3) = Inr (b, a)"
    by blast
  from sp no have "\<forall>z\<in>set p. written_attr z \<noteq> Some ''roles''"
    by (simp add: not_roles_writer)
  from fold_decode_preserves[OF pre this] have "map_of a1 ''roles'' = None" by simp
  with step sp(2) have a2: "map_of a2 ''roles'' = Some (PList [])"
    by (auto simp: decode_change_remove map_of_ensure_roles split: sum.splits)
  from sp no have "\<forall>z\<in>set q. \<not> is_key z ''$add'' \<and> \<not> is_key z ''roles''" by simp
  from fold_after_roles_kept[OF post this a2] add_aliases_roles[OF al]
  show ?thesis by simp
qed
section \<open>Unrecognized actions\<close>

text \<open>
  Claim C1. For every raw entry whose \<open>action_type\<close> is an integer that is not a code of
  the action enumeration (and whose \<open>id\<close>, \<open>user_id\<close> and \<open>target_id\<close> are well
  formed), the construction returns an entry; its action is the unrecognized variant, its
  \<open>category\<close> and its \<open>target\<close> are \<open>None\<close>, and \<open>changes\<close> is what the per-record
  algorithm with its aliases gives on the raw change list.
\<close>

theorem unrecognized_action:
  assumes at: "getitem data ''action_type'' = Inr (PInt n)" and un: "tbl n = None"
    and i: "int_item data ''id'' = Inr i"
    and u: "get_as_snowflake data ''user_id'' = Inr uid"
    and t: "get_as_snowflake data ''target_id'' = Inr tid"
  shows "\<exists>e. from_data tbl ev data = Inr e
           \<and> action e = Unrecognized (PInt n)
           \<and> fst (entry_category e) = PNone
           \<and> fst (entry_target ev' e) = Inr PNone
           \<and> (\<exists>chs. dict_get_default data ''changes'' (PList []) = Inr chs
                \<and> fst (entry_changes ev' e) =
                    (case iterate chs of
                       Inl err \<Rightarrow> Inl err
                     | Inr elems \<Rightarrow> decode_changes ev' e elems))"
proof -
  from at obtain kvs where d: "data = PDict kvs" by (cases data) auto
  let ?chs = "case map_of kvs ''changes'' of None \<Rightarrow> PList [] | Some v \<Rightarrow> v"
  let ?e = "\<lparr> action = Unrecognized (PInt n), entry_id = i,
              reason = (case map_of kvs ''reason'' of None \<Rightarrow> PNone | Some v \<Rightarrow> v),
              extra = PNone, raw_changes = Some ?chs,
              user = entry_get_member ev uid, raw_target_id = tid,
              cached_target = None, cached_category = None, cached_changes = None,
              cached_before = None, cached_after = None \<rparr>"
  from un have act: "try_enum_action tbl (PInt n) = Unrecognized (PInt n)"
    by (simp add: member_of_def)
  from at i u t act d have fd: "from_data tbl ev data = Inr ?e"
    by (simp add: from_data_def dict_get_def)
  have 1: "fst (entry_category ?e) = PNone" by (simp add: entry_category_def)
  have 2: "fst (entry_target ev' ?e) = Inr PNone"
    by (simp add: entry_target_def target_body_def)
  have 3: "fst (entry_changes ev' ?e) =
             (case iterate ?chs of Inl err \<Rightarrow> Inl err | Inr elems \<Rightarrow> decode_changes ev' ?e elems)"
    by (simp add: entry_changes_def AuditLogChanges_init_def split: sum.splits)
  have 4: "dict_get_default data ''changes'' (PList []) = Inr ?chs"
    using d by simp
  from fd 1 2 3 4 show ?thesis by (intro exI[of _ ?e]) simp
qed


theorem unrecognized_action_witness:
  "\<exists>e. from_data sample_actions sample_env
          (PDict [(''id'', PStr ''77''), (''action_type'', PInt 9999), (''target_id'', PStr ''3''),
                  (''changes'', PList [PDict [(''key'', PStr ''nick''), (''new_value'', PStr ''b'')]])])
        = Inr e
      \<and> action e = Unrecognized (PInt 9999)
      \<and> fst (entry_category e) = PNone
      \<and> fst (entry_target sample_env e) = Inr PNone
      \<and> fst (entry_changes sample_env e) = Inr ([(''nick'', PNone)], [(''nick'', PStr ''b'')])"
proof -
  let ?d = "PDict [(''id'', PStr ''77''), (''action_type'', PInt 9999), (''target_id'', PStr ''3''),
                  (''changes'', PList [PDict [(''key'', PStr ''nick''), (''new_value'', PStr ''b'')]])]"
  have h1: "getitem ?d ''action_type'' = Inr (PInt 9999)" by simp
  have h2: "sample_actions 9999 = None" by (simp add: sample_actions_def)
  have h3: "int_item ?d ''id'' = Inr 77"
    by (simp add: int_item_def digit_val_def decimal_digits_def)
  have h4: "get_as_snowflake ?d ''user_id'' = Inr None" by (simp add: get_as_snowflake_def)
  have h5: "get_as_snowflake ?d ''target_id'' = Inr (Some 3)"
    by (simp add: get_as_snowflake_def digit_val_def decimal_digits_def)
  from unrecognized_action[where tbl = sample_actions and ev = sample_env and ev' = sample_env,
      OF h1 h2 h3 h4 h5]
  obtain e where
    e: "from_data sample_actions sample_env ?d = Inr e"
       "action e = Unrecognized (PInt 9999)"
       "fst (entry_category e) = PNone"
       "fst (entry_target sample_env e) = Inr PNone"
       "\<exists>chs. dict_get_default ?d ''changes'' (PList []) = Inr chs
                \<and> fst (entry_changes sample_env e) =
                    (case iterate chs of
                       Inl err \<Rightarrow> Inl err
                     | Inr elems \<Rightarrow> decode_changes sample_env e elems)"
    by blast
  from e(5) have
    "fst (entry_changes sample_env e)
       = decode_changes sample_env e [PDict [(''key'', PStr ''nick''), (''new_value'', PStr ''b'')]]"
    by simp
  also have "\<dots> = Inr ([(''nick'', PNone)], [(''nick'', PStr ''b'')])"
    by (simp add: decode_changes_def decode_change_def decode_side_def resolve_def
        TRANSFORMERS_def TRANSFORMERS_table_def add_aliases_def add_alias_def hasattr_def)
  finally have "fst (entry_changes sample_env e) = Inr ([(''nick'', PNone)], [(''nick'', PStr ''b'')])" .
  with e(1-4) show ?thesis by blast
qed
section \<open>Target resolvers\<close>

lemma or_Object_present: "or_Object found (opt_int (Some n)) = Inr (entity_or_Object found n)"
  by (simp add: or_Object_def opt_int_def mk_Object_def entity_or_Object_def split: option.splits)

text \<open>
  The user resolver returns what the member lookup returns: for an action of the user
  kind whose raw target id is present but known neither to the guild's members nor to the
  users table, \<open>target\<close> is \<open>None\<close>.
\<close>

theorem target_user_absent_counterexample:
  "action_target_type (action (sample_entry role_update (Some 5) (PList []))) = Some ''user''
   \<and> raw_target_id (sample_entry role_update (Some 5) (PList [])) = Some 5
   \<and> fst (entry_target sample_env (sample_entry role_update (Some 5) (PList []))) = Inr PNone"
  by (simp add: entry_target_def target_body_def sample_entry_def role_update_def converters_def
      convert_target_user_def entry_get_member_def sample_env_def sample_guild_def)

text \<open>
  Claim C2, as amended. Take an entry that has not resolved its target yet and whose
  action has a target kind. When the raw target id is present: for the kinds channel,
  role, emoji, stage_instance, sticker, thread, guild_scheduled_event, integration,
  app_command and integration_or_app_command, \<open>target\<close> is the entity the kind's lookup
  finds, and the opaque reference with the raw id when the lookup misses, so it is never
  \<open>None\<close>; for the guild kind it is the entry's guild; for the user and message kinds it
  is what the member lookup returns, which is \<open>None\<close> on a miss; for a kind with no
  resolver it is the opaque reference with the raw id. When the raw target id is absent,
  \<open>target\<close> is \<open>None\<close> for the user and message kinds and for a kind with no resolver.
\<close>

theorem target_resolution:
  assumes fresh: "cached_target e = None"
    and kind: "action_target_type (action e) = Some kind"
  shows "(\<forall>n. raw_target_id e = Some n \<longrightarrow>
            (kind = ''channel'' \<longrightarrow>
               fst (entry_target ev e) = Inr (entity_or_Object (get_channel (env_guild ev) n) n))
          \<and> (kind = ''role'' \<longrightarrow>
               fst (entry_target ev e) = Inr (entity_or_Object (get_role (env_guild ev) n) n))
          \<and> (kind = ''emoji'' \<longrightarrow>
               fst (entry_target ev e) = Inr (entity_or_Object (get_emoji (env_state ev) n) n))
          \<and> (kind = ''stage_instance'' \<longrightarrow>
               fst (entry_target ev e) = Inr (entity_or_Object (get_stage_instance (env_guild ev) n) n))
          \<and> (kind = ''sticker'' \<longrightarrow>
               fst (entry_target ev e) = Inr (entity_or_Object (get_sticker (env_state ev) n) n))
          \<and> (kind = ''thread'' \<longrightarrow>
               fst (entry_target ev e) = Inr (entity_or_Object (get_thread (env_guild ev) n) n))
          \<and> (kind = ''guild_scheduled_event'' \<longrightarrow>
               fst (entry_target ev e) = Inr (entity_or_Object (get_scheduled_event (env_guild ev) n) n))
          \<and> (kind = ''integration'' \<longrightarrow>
               fst (entry_target ev e) = Inr (entity_or_Object (get_integration ev (Some n)) n))
          \<and> (kind = ''app_command'' \<longrightarrow>
               fst (entry_target ev e) = Inr (entity_or_Object (get_app_command ev (Some n)) n))
          \<and> (kind = ''integration_or_app_command'' \<longrightarrow>
               fst (entry_target ev e) =
                 Inr (entity_or_Object
                        (case get_integration_by_app_id ev (Some n) of
                           Some i \<Rightarrow> Some i
                         | None \<Rightarrow> get_app_command ev (Some n)) n))
          \<and> (kind = ''guild'' \<longrightarrow> fst (entry_target ev e) = Inr (Guild (guild_id (env_guild ev))))
          \<and> (kind = ''user'' \<or> kind = ''message'' \<longrightarrow>
               fst (entry_target ev e) = Inr (entry_get_member ev (Some n)))
          \<and> (map_of converters kind = None \<longrightarrow> fst (entry_target ev e) = Inr (Object n None))
          \<and> (\<forall>found. entity_or_Object found n \<noteq> PNone))
       \<and> (raw_target_id e = None \<longrightarrow>
            (kind = ''user'' \<or> kind = ''message'' \<or> map_of converters kind = None) \<longrightarrow>
            fst (entry_target ev e) = Inr PNone)"
proof (intro conjI allI impI)
  note defs = target_body_def converters_def lookup_def or_Object_present
  fix n assume n: "raw_target_id e = Some n" and k: "kind = ''channel''"
  from kind n k have "target_body ev e = (Inr (entity_or_Object (get_channel (env_guild ev) n) n), e)"
    by (simp add: defs convert_target_channel_def)
  from entry_target_fresh[OF fresh this]
  show "fst (entry_target ev e) = Inr (entity_or_Object (get_channel (env_guild ev) n) n)" .
next
  note defs = target_body_def converters_def lookup_def or_Object_present
  fix n assume n: "raw_target_id e = Some n" and k: "kind = ''role''"
  from kind n k have "target_body ev e = (Inr (entity_or_Object (get_role (env_guild ev) n) n), e)"
    by (simp add: defs convert_target_role_def)
  from entry_target_fresh[OF fresh this]
  show "fst (entry_target ev e) = Inr (entity_or_Object (get_role (env_guild ev) n) n)" .
next
  note defs = target_body_def converters_def lookup_def or_Object_present
  fix n assume n: "raw_target_id e = Some n" and k: "kind = ''emoji''"
  from kind n k have "target_body ev e = (Inr (entity_or_Object (get_emoji (env_state ev) n) n), e)"
    by (simp add: defs convert_target_emoji_def)
  from entry_target_fresh[OF fresh this]
  show "fst (entry_target ev e) = Inr (entity_or_Object (get_emoji (env_state ev) n) n)" .
next
  note defs = target_body_def converters_def lookup_def or_Object_present
  fix n assume n: "raw_target_id e = Some n" and k: "kind = ''stage_instance''"
  from kind n k have "target_body ev e = (Inr (entity_or_Object (get_stage_instance (env_guild ev) n) n), e)"
    by (simp add: defs convert_target_stage_instance_def)
  from entry_target_fresh[OF fresh this]
  show "fst (entry_target ev e) = Inr (entity_or_Object (get_stage_instance (env_guild ev) n) n)" .
next
  note defs = target_body_def converters_def lookup_def or_Object_present
  fix n assume n: "raw_target_id e = Some n" and k: "kind = ''sticker''"
  from kind n k have "target_body ev e = (Inr (entity_or_Object (get_sticker (env_state ev) n) n), e)"
    by (simp add: defs convert_target_sticker_def)
  from entry_target_fresh[OF fresh this]
  show "fst (entry_target ev e) = Inr (entity_or_Object (get_sticker (env_state ev) n) n)" .
next
  note defs = target_body_def converters_def lookup_def or_Object_present
  fix n assume n: "raw_target_id e = Some n" and k: "kind = ''thread''"
  from kind n k have "target_body ev e = (Inr (entity_or_Object (get_thread (env_guild ev) n) n), e)"
    by (simp add: defs convert_target_thread_def)
  from entry_target_fresh[OF fresh this]
  show "fst (entry_target ev e) = Inr (entity_or_Object (get_thread (env_guild ev) n) n)" .
next
  note defs = target_body_def converters_def lookup_def or_Object_present
  fix n assume n: "raw_target_id e = Some n" and k: "kind = ''guild_scheduled_event''"
  from kind n k have "target_body ev e = (Inr (entity_or_Object (get_scheduled_event (env_guild ev) n) n), e)"
    by (simp add: defs convert_target_guild_scheduled_event_def)
  from entry_target_fresh[OF fresh this]
  show "fst (entry_target ev e) = Inr (entity_or_Object (get_scheduled_event (env_guild ev) n) n)" .
next
  note defs = target_body_def converters_def lookup_def or_Object_present
  fix n assume n: "raw_target_id e = Some n" and k: "kind = ''integration''"
  from kind n k have "target_body ev e = (Inr (entity_or_Object (get_integration ev (Some n)) n), e)"
    by (simp add: defs convert_target_integration_def)
  from entry_target_fresh[OF fresh this]
  show "fst (entry_target ev e) = Inr (entity_or_Object (get_integration ev (Some n)) n)" .
next
  note defs = target_body_def converters_def lookup_def or_Object_present
  fix n assume n: "raw_target_id e = Some n" and k: "kind = ''app_command''"
  from kind n k have "target_body ev e = (Inr (entity_or_Object (get_app_command ev (Some n)) n), e)"
    by (simp add: defs convert_target_app_command_def)
  from entry_target_fresh[OF fresh this]
  show "fst (entry_target ev e) = Inr (entity_or_Object (get_app_command ev (Some n)) n)" .
next
  note defs = target_body_def converters_def lookup_def or_Object_present
  fix n assume n: "raw_target_id e = Some n" and k: "kind = ''integration_or_app_command''"
  from kind n k have
    "target_body ev e =
       (Inr (entity_or_Object
               (case get_integration_by_app_id ev (Some n) of
                  Some i \<Rightarrow> Some i
                | None \<Rightarrow> get_app_command ev (Some n)) n), e)"
    by (simp add: defs convert_target_integration_or_app_command_def)
  from entry_target_fresh[OF fresh this]
  show "fst (entry_target ev e) =
          Inr (entity_or_Object
                 (case get_integration_by_app_id ev (Some n) of
                    Some i \<Rightarrow> Some i
                  | None \<Rightarrow> get_app_command ev (Some n)) n)" .
next
  note defs = target_body_def converters_def lookup_def or_Object_present
  fix n assume n: "raw_target_id e = Some n" and k: "kind = ''guild''"
  from kind n k have "target_body ev e = (Inr (Guild (guild_id (env_guild ev))), e)"
    by (simp add: defs convert_target_guild_def)
  from entry_target_fresh[OF fresh this]
  show "fst (entry_target ev e) = Inr (Guild (guild_id (env_guild ev)))" .
next
  note defs = target_body_def converters_def lookup_def or_Object_present
  fix n assume n: "raw_target_id e = Some n" and k: "kind = ''user'' \<or> kind = ''message''"
  from k have "target_body ev e = (Inr (entry_get_member ev (Some n)), e)"
  proof
    assume "kind = ''user''"
    with kind n show ?thesis by (simp add: defs convert_target_user_def)
  next
    assume "kind = ''message''"
    with kind n show ?thesis by (simp add: defs convert_target_message_def)
  qed
  from entry_target_fresh[OF fresh this]
  show "fst (entry_target ev e) = Inr (entry_get_member ev (Some n))" .
next
  fix n assume n: "raw_target_id e = Some n" and k: "map_of converters kind = None"
  from kind n k have "target_body ev e = (Inr (Object n None), e)"
    by (simp add: target_body_def)
  from entry_target_fresh[OF fresh this]
  show "fst (entry_target ev e) = Inr (Object n None)" .
next
  fix n found
  show "entity_or_Object found n \<noteq> PNone"
    by (simp add: entity_or_Object_def split: option.splits)
next
  assume n: "raw_target_id e = None"
    and k: "kind = ''user'' \<or> kind = ''message'' \<or> map_of converters kind = None"
  from k have "target_body ev e = (Inr PNone, e)"
  proof (elim disjE)
    assume "kind = ''user''"
    with kind n show ?thesis
      by (simp add: target_body_def converters_def convert_target_user_def entry_get_member_def)
  next
    assume "kind = ''message''"
    with kind n show ?thesis
      by (simp add: target_body_def converters_def convert_target_message_def entry_get_member_def)
  next
    assume "map_of converters kind = None"
    with kind n show ?thesis by (simp add: target_body_def)
  qed
  from entry_target_fresh[OF fresh this]
  show "fst (entry_target ev e) = Inr PNone" .
qed


theorem target_resolution_witness:
  "fst (entry_target sample_env (sample_entry guild_role_update (Some 5) (PList [])))
     = Inr (Object 5 None)
   \<and> fst (entry_target sample_env (sample_entry guild_role_update (Some 1) (PList [])))
     = Inr (Entity 100)"
proof -
  have f: "\<And>n. cached_target (sample_entry guild_role_update n (PList [])) = None"
    by (simp add: sample_entry_def)
  have k: "\<And>n. action_target_type (action (sample_entry guild_role_update n (PList []))) = Some ''role''"
    by (simp add: sample_entry_def guild_role_update_def)
  have r: "\<And>n. raw_target_id (sample_entry guild_role_update n (PList [])) = n"
    by (simp add: sample_entry_def)
  have g: "get_role (env_guild sample_env) 5 = None" "get_role (env_guild sample_env) 1 = Some 100"
    by (simp_all add: sample_env_def sample_guild_def)
  from target_resolution[OF f k, of "Some 5" sample_env] r[of "Some 5"] g(1)
  have 1: "fst (entry_target sample_env (sample_entry guild_role_update (Some 5) (PList [])))
             = Inr (Object 5 None)"
    by (simp add: entity_or_Object_def)
  from target_resolution[OF f k, of "Some 1" sample_env] r[of "Some 1"] g(2)
  have 2: "fst (entry_target sample_env (sample_entry guild_role_update (Some 1) (PList [])))
             = Inr (Entity 100)"
    by (simp add: entity_or_Object_def)
  from 1 2 show ?thesis by (rule conjI)
qed
section \<open>Role additions and removals\<close>

text \<open>
  Claim C4. In an entry whose action is not the application-command permission update,
  when the decoder returns on a list of change records: \<open>after.roles\<close> is the list
  decoded from the \<open>new_value\<close> of the last \<open>$add\<close> record (no later record having the
  key \<open>roles\<close>), and \<open>before.roles\<close> the list decoded from the \<open>new_value\<close> of the last
  \<open>$remove\<close> record; so with one \<open>$add\<close> listing [A, B] and one \<open>$remove\<close> listing
  [C], \<open>after.roles\<close> is the decoded [A, B] and \<open>before.roles\<close> the decoded [C]. When the
  list has a \<open>$add\<close> record but no \<open>$remove\<close> (and no record with key \<open>roles\<close>),
  \<open>before.roles\<close> is the empty list; when it has a \<open>$remove\<close> but no \<open>$add\<close>,
  \<open>after.roles\<close> is the empty list.
\<close>

theorem add_and_remove_roles:
  assumes nacp: "\<not> action_is (action entry) ''app_command_permission_update''"
    and ok: "AuditLogChanges_init ev entry (PList elems) = Inr (b, a)"
  shows "(\<forall>p x q nv. elems = p @ x # q \<and> is_key x ''$add'' \<and> getitem x ''new_value'' = Inr nv
            \<and> (\<forall>z\<in>set q. \<not> is_key z ''$add'' \<and> \<not> is_key z ''roles'')
            \<longrightarrow> (\<exists>data. role_list ev nv = Inr data \<and> map_of a ''roles'' = Some (PList data)))
       \<and> (\<forall>p x q nv. elems = p @ x # q \<and> is_key x ''$remove'' \<and> getitem x ''new_value'' = Inr nv
            \<and> (\<forall>z\<in>set q. \<not> is_key z ''$remove'' \<and> \<not> is_key z ''roles'')
            \<longrightarrow> (\<exists>data. role_list ev nv = Inr data \<and> map_of b ''roles'' = Some (PList data)))
       \<and> ((\<exists>x\<in>set elems. is_key x ''$add'')
            \<and> (\<forall>z\<in>set elems. \<not> is_key z ''$remove'' \<and> \<not> is_key z ''roles'')
            \<longrightarrow> map_of b ''roles'' = Some (PList []))
       \<and> ((\<exists>x\<in>set elems. is_key x ''$remove'')
            \<and> (\<forall>z\<in>set elems. \<not> is_key z ''$add'' \<and> \<not> is_key z ''roles'')
            \<longrightarrow> map_of a ''roles'' = Some (PList []))"
  using last_add_roles[OF nacp] last_remove_roles[OF nacp]
    only_adds_before_empty[OF nacp ok] only_removes_after_empty[OF nacp ok] ok
  by blast


theorem add_and_remove_roles_witness:
  "AuditLogChanges_init sample_env (sample_entry role_update None PNone)
     (PList [PDict [(''key'', PStr ''$add''),
                    (''new_value'', PList [PDict [(''id'', PStr ''1''), (''name'', PStr ''a'')],
                                           PDict [(''id'', PStr ''999''), (''name'', PStr ''b'')]])],
             PDict [(''key'', PStr ''$remove''),
                    (''new_value'', PList [PDict [(''id'', PStr ''5''), (''name'', PStr ''c'')]])]])
     = Inr ([(''roles'', PList [Object 5 (Some (PStr ''c''))])],
            [(''roles'', PList [Entity 100, Object 999 (Some (PStr ''b''))])])
   \<and> (\<exists>data. role_list sample_env
                 (PList [PDict [(''id'', PStr ''1''), (''name'', PStr ''a'')],
                         PDict [(''id'', PStr ''999''), (''name'', PStr ''b'')]]) = Inr data
          \<and> map_of [(''roles'', PList [Entity 100, Object 999 (Some (PStr ''b''))])] ''roles''
              = Some (PList data))"
proof -
  let ?e = "sample_entry role_update None PNone"
  let ?nv = "PList [PDict [(''id'', PStr ''1''), (''name'', PStr ''a'')],
                    PDict [(''id'', PStr ''999''), (''name'', PStr ''b'')]]"
  let ?x = "PDict [(''key'', PStr ''$add''), (''new_value'', ?nv)]"
  let ?y = "PDict [(''key'', PStr ''$remove''),
                   (''new_value'', PList [PDict [(''id'', PStr ''5''), (''name'', PStr ''c'')]])]"
  let ?b = "[(''roles'', PList [Object 5 (Some (PStr ''c''))])]"
  let ?a = "[(''roles'', PList [Entity 100, Object 999 (Some (PStr ''b''))])]"
  have h1: "\<not> action_is (action ?e) ''app_command_permission_update''"
    by (simp add: sample_entry_def role_update_def)
  have h2: "AuditLogChanges_init sample_env ?e (PList [?x, ?y]) = Inr (?b, ?a)"
    by (simp add: AuditLogChanges_init_def sample_entry_def role_update_def decode_changes_def
        decode_change_def handle_role_def handle_role_elem_def int_item_def digit_val_def
        decimal_digits_def sample_env_def sample_guild_def
        add_aliases_def add_alias_def hasattr_def)
  have h3: "[?x, ?y] = [] @ ?x # [?y] \<and> is_key ?x ''$add'' \<and> getitem ?x ''new_value'' = Inr ?nv
            \<and> (\<forall>z\<in>set [?y]. \<not> is_key z ''$add'' \<and> \<not> is_key z ''roles'')"
    by (simp add: is_key_def)
  from add_and_remove_roles[OF h1 h2] have
    "\<forall>p x q nv. [?x, ?y] = p @ x # q \<and> is_key x ''$add'' \<and> getitem x ''new_value'' = Inr nv
            \<and> (\<forall>z\<in>set q. \<not> is_key z ''$add'' \<and> \<not> is_key z ''roles'')
            \<longrightarrow> (\<exists>data. role_list sample_env nv = Inr data \<and> map_of ?a ''roles'' = Some (PList data))"
    by (rule conjunct1)
  from this[rule_format, OF h3] h2 show ?thesis by (rule_tac conjI)
qed
section \<open>Unregistered keys\<close>

text \<open>
  Claim C5. In an entry whose action is not the application-command permission update,
  take a change record whose key is a string other than \<open>$add\<close> and \<open>$remove\<close> and is
  not in the transform registry. When the decoder returns, and no later record assigns the
  same attribute (nor the alias pass, which assigns \<open>expire_behaviour\<close> when some record
  produces \<open>expire_behavior\<close>), both containers hold the record's raw \<open>old_value\<close> and
  \<open>new_value\<close> unchanged under the raw key, with \<open>None\<close> for a value that is missing.
\<close>

theorem unregistered_key_passes_through:
  assumes nacp: "\<not> action_is (action entry) ''app_command_permission_update''"
    and ok: "AuditLogChanges_init ev entry (PList (xs @ r # ys)) = Inr (b, a)"
    and key: "is_key r k" "k \<noteq> ''$add''" "k \<noteq> ''$remove''" "TRANSFORMERS k = None"
    and later: "\<forall>y\<in>set ys. written_attr y \<noteq> Some k"
    and noalias: "k = ''expire_behaviour'' \<longrightarrow>
                  (\<forall>z\<in>set (xs @ r # ys). written_attr z \<noteq> Some ''expire_behavior'')"
  shows "map_of b k = Some (case getitem r ''old_value'' of Inr v \<Rightarrow> v | Inl e \<Rightarrow> PNone) \<and>
         map_of a k = Some (case getitem r ''new_value'' of Inr v \<Rightarrow> v | Inl e \<Rightarrow> PNone)"
proof -
  let ?f = "decode_change ev entry"
  from nacp ok obtain b3 a3 where
    loop: "fold_result ?f (xs @ r # ys) ([], []) = Inr (b3, a3)" and
    al: "add_aliases (b3, a3) = Inr (b, a)"
    by (auto simp: AuditLogChanges_init_def decode_changes_def split: sum.splits)
  from loop obtain b1 a1 b2 a2 where
    pre: "fold_result ?f xs ([], []) = Inr (b1, a1)" and
    step: "?f (b1, a1) r = Inr (b2, a2)" and
    post: "fold_result ?f ys (b2, a2) = Inr (b3, a3)"
    by (auto simp: fold_result_append split: sum.splits)
  from key have res: "resolve k = (k, None)" by (simp add: resolve_unregistered)
  from step key res have
    "map_of b2 k = Some (case getitem r ''old_value'' of Inr v \<Rightarrow> v | Inl e \<Rightarrow> PNone) \<and>
     map_of a2 k = Some (case getitem r ''new_value'' of Inr v \<Rightarrow> v | Inl e \<Rightarrow> PNone)"
    by (auto simp: decode_change_other decode_side_unregistered map_of_setattr)
  moreover from fold_decode_preserves[OF post later]
  have "map_of b3 k = map_of b2 k \<and> map_of a3 k = map_of a2 k" .
  moreover have "map_of b k = map_of b3 k \<and> map_of a k = map_of a3 k"
  proof (cases "k = ''expire_behaviour''")
    case True
    with noalias have "\<forall>z\<in>set (xs @ r # ys). written_attr z \<noteq> Some ''expire_behavior''" by simp
    from fold_decode_preserves[OF loop this] have no: "\<not> hasattr a3 ''expire_behavior''"
      by (simp add: hasattr_def)
    from al obtain b4 a4 where
      c: "add_alias ''colour'' ''color'' (b3, a3) = Inr (b4, a4)" and
      e: "add_alias ''expire_behavior'' ''expire_behaviour'' (b4, a4) = Inr (b, a)"
      by (auto simp: add_aliases_def split: sum.splits)
    from add_alias_other[OF c, of "''expire_behavior''"] no
    have "\<not> hasattr a4 ''expire_behavior''" by (simp add: hasattr_def)
    with e have "b = b4 \<and> a = a4" by (simp add: add_alias_absent)
    with add_alias_other[OF c, of k] True show ?thesis by simp
  next
    case False
    from al obtain b4 a4 where
      c: "add_alias ''colour'' ''color'' (b3, a3) = Inr (b4, a4)" and
      e: "add_alias ''expire_behavior'' ''expire_behaviour'' (b4, a4) = Inr (b, a)"
      by (auto simp: add_aliases_def split: sum.splits)
    from key have "k \<noteq> ''color''" by (simp add: unregistered_not_colour)
    from add_alias_other[OF c this] add_alias_other[OF e False] show ?thesis by simp
  qed
  ultimately show ?thesis by simp
qed

theorem unregistered_key_passes_through_witness:
  "AuditLogChanges_init sample_env (sample_entry role_update None PNone)
     (PList [PDict [(''key'', PStr ''nick''), (''old_value'', PStr ''a'')]])
     = Inr ([(''nick'', PStr ''a'')], [(''nick'', PNone)])
   \<and> map_of [(''nick'', PStr ''a'')] ''nick'' = Some (PStr ''a'')
   \<and> map_of [(''nick'', PNone)] ''nick'' = Some PNone"
proof -
  let ?r = "PDict [(''key'', PStr ''nick''), (''old_value'', PStr ''a'')]"
  let ?e = "sample_entry role_update None PNone"
  have h1: "\<not> action_is (action ?e) ''app_command_permission_update''"
    by (simp add: sample_entry_def role_update_def)
  have h2: "AuditLogChanges_init sample_env ?e (PList ([] @ ?r # []))
              = Inr ([(''nick'', PStr ''a'')], [(''nick'', PNone)])"
    by (simp add: AuditLogChanges_init_def sample_entry_def role_update_def decode_changes_def
        decode_change_def decode_side_def resolve_def TRANSFORMERS_def TRANSFORMERS_table_def
        add_aliases_def add_alias_def hasattr_def)
  have h3: "is_key ?r ''nick''" by (simp add: is_key_def)
  have h4: "TRANSFORMERS ''nick'' = None"
    by (simp add: TRANSFORMERS_def TRANSFORMERS_table_def)
  from unregistered_key_passes_through[OF h1 h2 h3 _ _ h4] h2 show ?thesis by simp
qed
section \<open>Role records and the old value\<close>

lemma getitem_agree:
  "\<forall>f. f \<noteq> ''old_value'' \<longrightarrow> map_of kvs' f = map_of kvs f \<Longrightarrow> f \<noteq> ''old_value'' \<Longrightarrow>
   getitem (PDict kvs') f = getitem (PDict kvs) f"
  by simp

lemma role_record_ignores_old_value:
  assumes "is_key (PDict kvs) k" "k = ''$add'' \<or> k = ''$remove''"
    and "\<forall>f. f \<noteq> ''old_value'' \<longrightarrow> map_of kvs' f = map_of kvs f"
  shows "decode_change ev entry s (PDict kvs') = decode_change ev entry s (PDict kvs)"
proof -
  from assms(3) have k: "getitem (PDict kvs') ''key'' = getitem (PDict kvs) ''key''"
    and n: "getitem (PDict kvs') ''new_value'' = getitem (PDict kvs) ''new_value''"
    by (simp_all add: getitem_agree)
  from assms(1) k have k': "is_key (PDict kvs') k" by (simp add: is_key_def)
  obtain b a where s: "s = (b, a)" by (cases s)
  from assms(2) show ?thesis
  proof
    assume "k = ''$add''"
    with assms(1) k' n s show ?thesis by (simp add: decode_change_add)
  next
    assume "k = ''$remove''"
    with assms(1) k' n s show ?thesis by (simp add: decode_change_remove)
  qed
qed

text \<open>
  Claim C10. In an entry whose action is not the application-command permission update,
  a record with key \<open>$add\<close> or \<open>$remove\<close> is decoded from its \<open>new_value\<close> alone.
  Replacing, removing or adding its \<open>old_value\<close> changes nothing in what the decoder
  returns. Decoding a \<open>$remove\<close> record raises KeyError when it has no \<open>new_value\<close>,
  and otherwise assigns to \<open>before.roles\<close> the roles decoded from the list in its
  \<open>new_value\<close>; decoding a \<open>$add\<close> record does the same with \<open>after.roles\<close>. So
  when the decoder returns on a list of records, \<open>before.roles\<close> is the list decoded
  from the \<open>new_value\<close> of the last \<open>$remove\<close> record and \<open>after.roles\<close> the list
  decoded from the \<open>new_value\<close> of the last \<open>$add\<close> record (no later record having the
  key \<open>roles\<close>), whatever their \<open>old_value\<close> lists. On a list with the one record,
  the decoder returns as soon as the role list of its \<open>new_value\<close> decodes: a
  \<open>$remove\<close> listing [C] gives \<open>before.roles\<close> the decoded [C] and \<open>after.roles\<close> the
  empty list, and a \<open>$add\<close> the converse.
\<close>

theorem role_records_read_new_value:
  assumes nacp: "\<not> action_is (action entry) ''app_command_permission_update''"
    and key: "is_key (PDict kvs) k" "k = ''$add'' \<or> k = ''$remove''"
    and agree: "\<forall>f. f \<noteq> ''old_value'' \<longrightarrow> map_of kvs' f = map_of kvs f"
  shows "AuditLogChanges_init ev entry (PList (xs @ PDict kvs' # ys))
           = AuditLogChanges_init ev entry (PList (xs @ PDict kvs # ys))
         \<and> (k = ''$remove'' \<longrightarrow>
              decode_change ev entry (b, a) (PDict kvs) =
                (case map_of kvs ''new_value'' of
                   None \<Rightarrow> Inl KeyError
                 | Some nv \<Rightarrow>
                     (case role_list ev nv of
                        Inl e \<Rightarrow> Inl e
                      | Inr data \<Rightarrow> Inr (setattr b ''roles'' (PList data), ensure_roles a))))
         \<and> (k = ''$add'' \<longrightarrow>
              decode_change ev entry (b, a) (PDict kvs) =
                (case map_of kvs ''new_value'' of
                   None \<Rightarrow> Inl KeyError
                 | Some nv \<Rightarrow>
                     (case role_list ev nv of
                        Inl e \<Rightarrow> Inl e
                      | Inr data \<Rightarrow> Inr (ensure_roles b, setattr a ''roles'' (PList data)))))
         \<and> (\<forall>b' a'. AuditLogChanges_init ev entry (PList (xs @ PDict kvs # ys)) = Inr (b', a')
                \<and> k = ''$remove''
                \<and> (\<forall>z\<in>set ys. \<not> is_key z ''$remove'' \<and> \<not> is_key z ''roles'')
              \<longrightarrow> (\<exists>nv data. map_of kvs ''new_value'' = Some nv \<and> role_list ev nv = Inr data
                     \<and> map_of b' ''roles'' = Some (PList data)))
         \<and> (\<forall>b' a'. AuditLogChanges_init ev entry (PList (xs @ PDict kvs # ys)) = Inr (b', a')
                \<and> k = ''$add''
                \<and> (\<forall>z\<in>set ys. \<not> is_key z ''$add'' \<and> \<not> is_key z ''roles'')
              \<longrightarrow> (\<exists>nv data. map_of kvs ''new_value'' = Some nv \<and> role_list ev nv = Inr data
                     \<and> map_of a' ''roles'' = Some (PList data)))
         \<and> (\<forall>nv data. k = ''$remove'' \<and> map_of kvs ''new_value'' = Some nv
                \<and> role_list ev nv = Inr data
              \<longrightarrow> AuditLogChanges_init ev entry (PList [PDict kvs])
                    = Inr ([(''roles'', PList data)], [(''roles'', PList [])]))
         \<and> (\<forall>nv data. k = ''$add'' \<and> map_of kvs ''new_value'' = Some nv
                \<and> role_list ev nv = Inr data
              \<longrightarrow> AuditLogChanges_init ev entry (PList [PDict kvs])
                    = Inr ([(''roles'', PList [])], [(''roles'', PList data)]))"
proof -
  have step: "\<And>s. decode_change ev entry s (PDict kvs') = decode_change ev entry s (PDict kvs)"
    using key agree by (rule role_record_ignores_old_value)
  have "fold_result (decode_change ev entry) (xs @ PDict kvs' # ys) ([], [])
          = fold_result (decode_change ev entry) (xs @ PDict kvs # ys) ([], [])"
    by (simp add: fold_result_append step split: sum.splits)
  with nacp have 1: "AuditLogChanges_init ev entry (PList (xs @ PDict kvs' # ys))
           = AuditLogChanges_init ev entry (PList (xs @ PDict kvs # ys))"
    by (simp add: AuditLogChanges_init_def decode_changes_def)
  have 2: "k = ''$remove'' \<longrightarrow>
              decode_change ev entry (b, a) (PDict kvs) =
                (case map_of kvs ''new_value'' of
                   None \<Rightarrow> Inl KeyError
                 | Some nv \<Rightarrow>
                     (case role_list ev nv of
                        Inl e \<Rightarrow> Inl e
                      | Inr data \<Rightarrow> Inr (setattr b ''roles'' (PList data), ensure_roles a)))"
    using key(1) by (auto simp: decode_change_remove split: option.splits)
  have 3: "k = ''$add'' \<longrightarrow>
              decode_change ev entry (b, a) (PDict kvs) =
                (case map_of kvs ''new_value'' of
                   None \<Rightarrow> Inl KeyError
                 | Some nv \<Rightarrow>
                     (case role_list ev nv of
                        Inl e \<Rightarrow> Inl e
                      | Inr data \<Rightarrow> Inr (ensure_roles b, setattr a ''roles'' (PList data))))"
    using key(1) by (auto simp: decode_change_add split: option.splits)
  have 4: "\<forall>b' a'. AuditLogChanges_init ev entry (PList (xs @ PDict kvs # ys)) = Inr (b', a')
                \<and> k = ''$remove''
                \<and> (\<forall>z\<in>set ys. \<not> is_key z ''$remove'' \<and> \<not> is_key z ''roles'')
              \<longrightarrow> (\<exists>nv data. map_of kvs ''new_value'' = Some nv \<and> role_list ev nv = Inr data
                     \<and> map_of b' ''roles'' = Some (PList data))"
  proof (intro allI impI)
    fix b' a'
    assume as: "AuditLogChanges_init ev entry (PList (xs @ PDict kvs # ys)) = Inr (b', a')
                \<and> k = ''$remove''
                \<and> (\<forall>z\<in>set ys. \<not> is_key z ''$remove'' \<and> \<not> is_key z ''roles'')"
    then have ok: "AuditLogChanges_init ev entry (PList (xs @ PDict kvs # ys)) = Inr (b', a')"
      and k: "is_key (PDict kvs) ''$remove''"
      and q: "\<forall>z\<in>set ys. \<not> is_key z ''$remove'' \<and> \<not> is_key z ''roles''"
      using key(1) by simp_all
    from decode_split[OF nacp ok] obtain b1 a1 b2 a2 where
      "decode_change ev entry (b1, a1) (PDict kvs) = Inr (b2, a2)" by blast
    with k obtain nv where nv: "map_of kvs ''new_value'' = Some nv"
      by (cases "map_of kvs ''new_value''") (auto simp: decode_change_remove)
    then have g: "getitem (PDict kvs) ''new_value'' = Inr nv" by simp
    from last_remove_roles[OF nacp ok k g q] nv
    show "\<exists>nv data. map_of kvs ''new_value'' = Some nv \<and> role_list ev nv = Inr data
                     \<and> map_of b' ''roles'' = Some (PList data)"
      by blast
  qed
  have 5: "\<forall>b' a'. AuditLogChanges_init ev entry (PList (xs @ PDict kvs # ys)) = Inr (b', a')
                \<and> k = ''$add''
                \<and> (\<forall>z\<in>set ys. \<not> is_key z ''$add'' \<and> \<not> is_key z ''roles'')
              \<longrightarrow> (\<exists>nv data. map_of kvs ''new_value'' = Some nv \<and> role_list ev nv = Inr data
                     \<and> map_of a' ''roles'' = Some (PList data))"
  proof (intro allI impI)
    fix b' a'
    assume as: "AuditLogChanges_init ev entry (PList (xs @ PDict kvs # ys)) = Inr (b', a')
                \<and> k = ''$add''
                \<and> (\<forall>z\<in>set ys. \<not> is_key z ''$add'' \<and> \<not> is_key z ''roles'')"
    then have ok: "AuditLogChanges_init ev entry (PList (xs @ PDict kvs # ys)) = Inr (b', a')"
      and k: "is_key (PDict kvs) ''$add''"
      and q: "\<forall>z\<in>set ys. \<not> is_key z ''$add'' \<and> \<not> is_key z ''roles''"
      using key(1) by simp_all
    from decode_split[OF nacp ok] obtain b1 a1 b2 a2 where
      "decode_change ev entry (b1, a1) (PDict kvs) = Inr (b2, a2)" by blast
    with k obtain nv where nv: "map_of kvs ''new_value'' = Some nv"
      by (cases "map_of kvs ''new_value''") (auto simp: decode_change_add)
    then have g: "getitem (PDict kvs) ''new_value'' = Inr nv" by simp
    from last_add_roles[OF nacp ok k g q] nv
    show "\<exists>nv data. map_of kvs ''new_value'' = Some nv \<and> role_list ev nv = Inr data
                     \<and> map_of a' ''roles'' = Some (PList data)"
      by blast
  qed
  have 6: "\<forall>nv data. k = ''$remove'' \<and> map_of kvs ''new_value'' = Some nv
                \<and> role_list ev nv = Inr data
              \<longrightarrow> AuditLogChanges_init ev entry (PList [PDict kvs])
                    = Inr ([(''roles'', PList data)], [(''roles'', PList [])])"
    using nacp key(1)
    by (auto simp: AuditLogChanges_init_def decode_changes_def decode_change_remove
        ensure_roles_def hasattr_def add_aliases_def add_alias_def)
  have 7: "\<forall>nv data. k = ''$add'' \<and> map_of kvs ''new_value'' = Some nv
                \<and> role_list ev nv = Inr data
              \<longrightarrow> AuditLogChanges_init ev entry (PList [PDict kvs])
                    = Inr ([(''roles'', PList [])], [(''roles'', PList data)])"
    using nacp key(1)
    by (auto simp: AuditLogChanges_init_def decode_changes_def decode_change_add
        ensure_roles_def hasattr_def add_aliases_def add_alias_def)
  from 1 2 3 4 5 6 7 show ?thesis by (intro conjI)
qed

theorem role_records_read_new_value_witness:
  "decode_change sample_env (sample_entry role_update None PNone) ([], [])
     (PDict [(''key'', PStr ''$remove''),
             (''old_value'', PList [PDict [(''id'', PStr ''1''), (''name'', PStr ''a'')]]),
             (''new_value'', PList [PDict [(''id'', PStr ''999''), (''name'', PStr ''c'')]])])
   = Inr ([(''roles'', PList [Object 999 (Some (PStr ''c''))])], [(''roles'', PList [])])
   \<and> AuditLogChanges_init sample_env (sample_entry role_update None PNone)
         (PList [PDict [(''key'', PStr ''$remove''),
             (''old_value'', PList [PDict [(''id'', PStr ''1''), (''name'', PStr ''a'')]]),
             (''new_value'', PList [PDict [(''id'', PStr ''999''), (''name'', PStr ''c'')]])]])
     = Inr ([(''roles'', PList [Object 999 (Some (PStr ''c''))])], [(''roles'', PList [])])
   \<and> (\<exists>nv data.
         map_of [(''key'', PStr ''$remove''),
                 (''old_value'', PList [PDict [(''id'', PStr ''1''), (''name'', PStr ''a'')]]),
                 (''new_value'', PList [PDict [(''id'', PStr ''999''), (''name'', PStr ''c'')]])]
           ''new_value'' = Some nv
         \<and> role_list sample_env nv = Inr data
         \<and> map_of [(''roles'', PList [Object 999 (Some (PStr ''c''))])] ''roles'' = Some (PList data))"
proof -
  let ?kvs = "[(''key'', PStr ''$remove''),
             (''old_value'', PList [PDict [(''id'', PStr ''1''), (''name'', PStr ''a'')]]),
             (''new_value'', PList [PDict [(''id'', PStr ''999''), (''name'', PStr ''c'')]])]"
  let ?e = "sample_entry role_update None PNone"
  let ?b = "[(''roles'', PList [Object 999 (Some (PStr ''c''))])]"
  let ?a = "[(''roles'', PList [])]"
  have h1: "\<not> action_is (action ?e) ''app_command_permission_update''"
    by (simp add: sample_entry_def role_update_def)
  have h2: "is_key (PDict ?kvs) ''$remove''" by (simp add: is_key_def)
  have h3: "''$remove'' = ''$add'' \<or> ''$remove'' = ''$remove''" by simp
  have h4: "\<forall>f. f \<noteq> ''old_value'' \<longrightarrow> map_of ?kvs f = map_of ?kvs f" by simp
  have r: "role_list sample_env (PList [PDict [(''id'', PStr ''999''), (''name'', PStr ''c'')]])
             = Inr [Object 999 (Some (PStr ''c''))]"
    by (simp add: role_list_def handle_role_elem_def int_item_def digit_val_def decimal_digits_def
        sample_env_def sample_guild_def)
  note t = role_records_read_new_value[OF h1 h2 h3 h4, of sample_env "[]" "[]" "[]" "[]"]
  from t r have 1: "decode_change sample_env ?e ([], []) (PDict ?kvs) = Inr (?b, ?a)"
    by (simp add: ensure_roles_def hasattr_def)
  then have 2: "AuditLogChanges_init sample_env ?e (PList ([] @ PDict ?kvs # [])) = Inr (?b, ?a)"
    using h1 by (simp add: AuditLogChanges_init_def decode_changes_def add_aliases_def
        add_alias_def hasattr_def)
  from t have "\<forall>b' a'. AuditLogChanges_init sample_env ?e (PList ([] @ PDict ?kvs # [])) = Inr (b', a')
                \<and> ''$remove'' = ''$remove''
                \<and> (\<forall>z\<in>set []. \<not> is_key z ''$remove'' \<and> \<not> is_key z ''roles'')
              \<longrightarrow> (\<exists>nv data. map_of ?kvs ''new_value'' = Some nv \<and> role_list sample_env nv = Inr data
                     \<and> map_of b' ''roles'' = Some (PList data))"
    by blast
  from this[rule_format, of ?b ?a] 2
  have 3: "\<exists>nv data. map_of ?kvs ''new_value'' = Some nv \<and> role_list sample_env nv = Inr data
                     \<and> map_of ?b ''roles'' = Some (PList data)"
    by simp
  from 1 2 3 show ?thesis by simp
qed
section \<open>Aliases of the two spellings\<close>

text \<open>
  Claim C9. In an entry whose action is not the application-command permission update,
  when the decoder returns: if the \<open>after\<close> container has a \<open>colour\<close> attribute, so has
  \<open>before\<close>, and on both containers \<open>color\<close> holds the very value of \<open>colour\<close>; if
  \<open>after\<close> has an \<open>expire_behavior\<close> attribute, so has \<open>before\<close>, and on both
  containers \<open>expire_behaviour\<close> holds the value of \<open>expire_behavior\<close>. In particular,
  a raw record with key \<open>color\<close> produces \<open>colour\<close>, hence both spellings, on both
  containers.
\<close>

theorem spelling_aliases:
  assumes nacp: "\<not> action_is (action entry) ''app_command_permission_update''"
    and ok: "AuditLogChanges_init ev entry data = Inr (b, a)"
  shows "(hasattr a ''colour'' \<longrightarrow>
            hasattr b ''colour'' \<and> map_of a ''color'' = map_of a ''colour''
            \<and> map_of b ''color'' = map_of b ''colour'')
       \<and> (hasattr a ''expire_behavior'' \<longrightarrow>
            hasattr b ''expire_behavior''
            \<and> map_of a ''expire_behaviour'' = map_of a ''expire_behavior''
            \<and> map_of b ''expire_behaviour'' = map_of b ''expire_behavior'')
       \<and> (\<forall>elems. iterate data = Inr elems \<and> (\<exists>x\<in>set elems. is_key x ''color'')
            \<longrightarrow> hasattr a ''colour'' \<and> hasattr b ''colour'')"
proof -
  from nacp ok obtain elems b3 a3 b4 a4 where
    it: "iterate data = Inr elems" and
    loop: "fold_result (decode_change ev entry) elems ([], []) = Inr (b3, a3)" and
    c: "add_alias ''colour'' ''color'' (b3, a3) = Inr (b4, a4)" and
    e: "add_alias ''expire_behavior'' ''expire_behaviour'' (b4, a4) = Inr (b, a)"
    by (auto simp: AuditLogChanges_init_def decode_changes_def add_aliases_def split: sum.splits)
  have c_keep: "\<And>f. f \<noteq> ''color'' \<Longrightarrow> map_of b4 f = map_of b3 f \<and> map_of a4 f = map_of a3 f"
    using add_alias_other[OF c] by blast
  have e_keep: "\<And>f. f \<noteq> ''expire_behaviour'' \<Longrightarrow> map_of b f = map_of b4 f \<and> map_of a f = map_of a4 f"
    using add_alias_other[OF e] by blast
  have col: "hasattr a ''colour'' = hasattr a3 ''colour''"
    using c_keep[of "''colour''"] e_keep[of "''colour''"] by (simp add: hasattr_def)
  have ex4: "hasattr a ''expire_behavior'' = hasattr a4 ''expire_behavior''"
    using e_keep[of "''expire_behavior''"] by (simp add: hasattr_def)
  have 1: "hasattr a ''colour'' \<longrightarrow>
            hasattr b ''colour'' \<and> map_of a ''color'' = map_of a ''colour''
            \<and> map_of b ''color'' = map_of b ''colour''"
  proof
    assume "hasattr a ''colour''"
    with col have h: "hasattr a3 ''colour''" by simp
    from add_alias_result[OF c h] have
      r: "hasattr b3 ''colour''" "map_of a4 ''color'' = map_of a3 ''colour''"
         "map_of b4 ''color'' = map_of b3 ''colour''" by simp_all
    with c_keep[of "''colour''"] e_keep[of "''colour''"] e_keep[of "''color''"]
    show "hasattr b ''colour'' \<and> map_of a ''color'' = map_of a ''colour''
            \<and> map_of b ''color'' = map_of b ''colour''"
      by (simp add: hasattr_def)
  qed
  have 2: "hasattr a ''expire_behavior'' \<longrightarrow>
            hasattr b ''expire_behavior''
            \<and> map_of a ''expire_behaviour'' = map_of a ''expire_behavior''
            \<and> map_of b ''expire_behaviour'' = map_of b ''expire_behavior''"
  proof
    assume "hasattr a ''expire_behavior''"
    with ex4 have h: "hasattr a4 ''expire_behavior''" by simp
    from add_alias_result[OF e h] e_keep[of "''expire_behavior''"]
    show "hasattr b ''expire_behavior''
            \<and> map_of a ''expire_behaviour'' = map_of a ''expire_behavior''
            \<and> map_of b ''expire_behaviour'' = map_of b ''expire_behavior''"
      by (simp add: hasattr_def)
  qed
  have 3: "\<forall>elems'. iterate data = Inr elems' \<and> (\<exists>x\<in>set elems'. is_key x ''color'')
            \<longrightarrow> hasattr a ''colour'' \<and> hasattr b ''colour''"
  proof (intro allI impI)
    fix elems'
    assume as: "iterate data = Inr elems' \<and> (\<exists>x\<in>set elems'. is_key x ''color'')"
    with it obtain x where x: "x \<in> set elems" "is_key x ''color''" by auto
    have "resolve ''color'' = (''colour'', Some transform_color)"
      by (simp add: resolve_def TRANSFORMERS_def TRANSFORMERS_table_def)
    with x(2) have "written_attr x = Some ''colour''" by (simp add: written_attr_key)
    with x(1) have "Some ''colour'' \<in> written_attr ` set elems" by force
    with fold_decode_hasattr[OF loop] have "hasattr a3 ''colour''" by simp
    with col 1 show "hasattr a ''colour'' \<and> hasattr b ''colour''" by simp
  qed
  from 1 2 3 show ?thesis by blast
qed


theorem spelling_aliases_witness:
  "AuditLogChanges_init sample_env (sample_entry role_update None PNone)
     (PList [PDict [(''key'', PStr ''color''), (''old_value'', PInt 1), (''new_value'', PInt 2)]])
     = Inr ([(''colour'', Colour (PInt 1)), (''color'', Colour (PInt 1))],
            [(''colour'', Colour (PInt 2)), (''color'', Colour (PInt 2))])
   \<and> hasattr [(''colour'', Colour (PInt 1)), (''color'', Colour (PInt 1))] ''colour''
   \<and> map_of [(''colour'', Colour (PInt 2)), (''color'', Colour (PInt 2))] ''color''
       = map_of [(''colour'', Colour (PInt 2)), (''color'', Colour (PInt 2))] ''colour''
   \<and> map_of [(''colour'', Colour (PInt 1)), (''color'', Colour (PInt 1))] ''color''
       = map_of [(''colour'', Colour (PInt 1)), (''color'', Colour (PInt 1))] ''colour''"
proof -
  let ?e = "sample_entry role_update None PNone"
  let ?d = "PList [PDict [(''key'', PStr ''color''), (''old_value'', PInt 1), (''new_value'', PInt 2)]]"
  let ?b = "[(''colour'', Colour (PInt 1)), (''color'', Colour (PInt 1))]"
  let ?a = "[(''colour'', Colour (PInt 2)), (''color'', Colour (PInt 2))]"
  have h1: "\<not> action_is (action ?e) ''app_command_permission_update''"
    by (simp add: sample_entry_def role_update_def)
  have h2: "AuditLogChanges_init sample_env ?e ?d = Inr (?b, ?a)"
    by (simp add: AuditLogChanges_init_def sample_entry_def role_update_def decode_changes_def
        decode_change_def decode_side_def resolve_def TRANSFORMERS_def TRANSFORMERS_table_def
        transform_color_def add_aliases_def add_alias_def hasattr_def getattr_def)
  have h3: "hasattr ?a ''colour''" by (simp add: hasattr_def)
  from spelling_aliases[OF h1 h2] h2 h3 show ?thesis by blast
qed
section \<open>Roles the guild does not know\<close>

lemma map_result_total:
  "\<forall>x\<in>set xs. \<exists>y. f x = Inr y \<Longrightarrow>
   \<exists>ys. map_result f xs = Inr ys \<and> length ys = length xs \<and>
        (\<forall>i<length xs. f (xs ! i) = Inr (ys ! i))"
proof (induction xs)
  case Nil
  then show ?case by simp
next
  case (Cons x xs)
  from Cons.prems obtain y where y: "f x = Inr y" by auto
  from Cons obtain ys where
    ys: "map_result f xs = Inr ys" "length ys = length xs"
        "\<forall>i<length xs. f (xs ! i) = Inr (ys ! i)"
    by auto
  have "\<forall>i<length (x # xs). f ((x # xs) ! i) = Inr ((y # ys) ! i)"
  proof (intro allI impI)
    fix i assume "i < length (x # xs)"
    with y ys(3) show "f ((x # xs) ! i) = Inr ((y # ys) ! i)"
      by (cases i) auto
  qed
  with y ys(1,2) show ?case by simp
qed

lemma handle_role_elem_total:
  assumes "\<exists>n. int_item e ''id'' = Inr n" "\<exists>nm. getitem e ''name'' = Inr nm"
  shows "\<exists>y. handle_role_elem ev e = Inr y"
  using assms by (auto simp: handle_role_elem_def split: option.splits)

lemma handle_role_elem_unresolved:
  assumes "int_item e ''id'' = Inr n" "getitem e ''name'' = Inr nm"
    "get_role (env_guild ev) n = None"
  shows "handle_role_elem ev e = Inr (Object n (Some nm))"
  using assms by (simp add: handle_role_elem_def)

lemma role_list_wellformed:
  assumes wf: "\<forall>e\<in>set stubs. (\<exists>n. int_item e ''id'' = Inr n) \<and> (\<exists>nm. getitem e ''name'' = Inr nm)"
  shows "\<exists>data. role_list ev (PList stubs) = Inr data \<and> length data = length stubs \<and>
           (\<forall>i<length stubs. \<forall>n nm.
              int_item (stubs ! i) ''id'' = Inr n \<and> getitem (stubs ! i) ''name'' = Inr nm
              \<and> get_role (env_guild ev) n = None
              \<longrightarrow> data ! i = Object n (Some nm))"
proof -
  from wf have "\<forall>e\<in>set stubs. \<exists>y. handle_role_elem ev e = Inr y"
    by (simp add: handle_role_elem_total)
  from map_result_total[OF this] obtain data where
    d: "map_result (handle_role_elem ev) stubs = Inr data" "length data = length stubs"
       "\<forall>i<length stubs. handle_role_elem ev (stubs ! i) = Inr (data ! i)"
    by blast
  have "\<forall>i<length stubs. \<forall>n nm.
              int_item (stubs ! i) ''id'' = Inr n \<and> getitem (stubs ! i) ''name'' = Inr nm
              \<and> get_role (env_guild ev) n = None
              \<longrightarrow> data ! i = Object n (Some nm)"
  proof (intro allI impI)
    fix i n nm
    assume i: "i < length stubs"
      and u: "int_item (stubs ! i) ''id'' = Inr n \<and> getitem (stubs ! i) ''name'' = Inr nm
              \<and> get_role (env_guild ev) n = None"
    from u have "handle_role_elem ev (stubs ! i) = Inr (Object n (Some nm))"
      by (simp add: handle_role_elem_unresolved)
    with d(3) i show "data ! i = Object n (Some nm)" by simp
  qed
  with d(1,2) show ?thesis by (simp add: role_list_def)
qed

text \<open>
  Claim C8. Take a \<open>$add\<close> or \<open>$remove\<close> record whose \<open>new_value\<close> is a list of role
  stubs, each with an \<open>id\<close> that converts to an integer and a \<open>name\<close>. Decoding the
  record raises no error, the \<open>roles\<close> list it assigns has one element per stub, and for
  every stub whose id matches no role of the guild that element is the opaque reference
  with the raw id and the stub's name (raw id 999 gives \<open>Object 999\<close> with that name).
\<close>

theorem unresolved_role_placeholder:
  assumes key: "is_key x ''$add'' \<or> is_key x ''$remove''"
    and nv: "getitem x ''new_value'' = Inr (PList stubs)"
    and wf: "\<forall>e\<in>set stubs. (\<exists>n. int_item e ''id'' = Inr n) \<and> (\<exists>nm. getitem e ''name'' = Inr nm)"
  shows "\<exists>b' a' data.
           decode_change ev entry (b, a) x = Inr (b', a')
           \<and> map_of (if is_key x ''$add'' then a' else b') ''roles'' = Some (PList data)
           \<and> length data = length stubs
           \<and> (\<forall>i<length stubs. \<forall>n nm.
                 int_item (stubs ! i) ''id'' = Inr n \<and> getitem (stubs ! i) ''name'' = Inr nm
                 \<and> get_role (env_guild ev) n = None
                 \<longrightarrow> data ! i = Object n (Some nm))"
proof -
  from role_list_wellformed[OF wf, of ev] obtain data where
    d: "role_list ev (PList stubs) = Inr data" "length data = length stubs"
       "\<forall>i<length stubs. \<forall>n nm.
              int_item (stubs ! i) ''id'' = Inr n \<and> getitem (stubs ! i) ''name'' = Inr nm
              \<and> get_role (env_guild ev) n = None
              \<longrightarrow> data ! i = Object n (Some nm)"
    by blast
  show ?thesis
  proof (cases "is_key x ''$add''")
    case True
    with nv d(1) have
      "decode_change ev entry (b, a) x = Inr (ensure_roles b, setattr a ''roles'' (PList data))"
      by (simp add: decode_change_add)
    moreover have "map_of (setattr a ''roles'' (PList data)) ''roles'' = Some (PList data)"
      by (simp add: map_of_setattr)
    ultimately show ?thesis using True d(2,3) by (intro exI conjI) simp_all
  next
    case False
    with key have r: "is_key x ''$remove''" by simp
    with nv d(1) have
      "decode_change ev entry (b, a) x = Inr (setattr b ''roles'' (PList data), ensure_roles a)"
      by (simp add: decode_change_remove)
    moreover have "map_of (setattr b ''roles'' (PList data)) ''roles'' = Some (PList data)"
      by (simp add: map_of_setattr)
    ultimately show ?thesis using False d(2,3) by (intro exI conjI) simp_all
  qed
qed

theorem unresolved_role_placeholder_witness:
  "\<exists>b' a' data.
     decode_change sample_env (sample_entry role_update None PNone) ([], [])
       (PDict [(''key'', PStr ''$add''),
               (''new_value'', PList [PDict [(''id'', PStr ''999''), (''name'', PStr ''gone'')]])])
       = Inr (b', a')
     \<and> map_of a' ''roles'' = Some (PList data)
     \<and> length data = 1
     \<and> data ! 0 = Object 999 (Some (PStr ''gone''))"
proof -
  let ?stub = "PDict [(''id'', PStr ''999''), (''name'', PStr ''gone'')]"
  let ?x = "PDict [(''key'', PStr ''$add''), (''new_value'', PList [?stub])]"
  have h1: "is_key ?x ''$add'' \<or> is_key ?x ''$remove''" by (simp add: is_key_def)
  have h2: "getitem ?x ''new_value'' = Inr (PList [?stub])" by simp
  have i: "int_item ?stub ''id'' = Inr 999"
    by (simp add: int_item_def digit_val_def decimal_digits_def)
  have n: "getitem ?stub ''name'' = Inr (PStr ''gone'')" by simp
  have g: "get_role (env_guild sample_env) 999 = None"
    by (simp add: sample_env_def sample_guild_def)
  have h3: "\<forall>e\<in>set [?stub]. (\<exists>n. int_item e ''id'' = Inr n) \<and> (\<exists>nm. getitem e ''name'' = Inr nm)"
    using i n by simp
  have k: "is_key ?x ''$add''" by (simp add: is_key_def)
  from unresolved_role_placeholder[OF h1 h2 h3, of sample_env
      "sample_entry role_update None PNone" "[]" "[]"]
  obtain b' a' data where
    r: "decode_change sample_env (sample_entry role_update None PNone) ([], []) ?x = Inr (b', a')"
       "map_of (if is_key ?x ''$add'' then a' else b') ''roles'' = Some (PList data)"
       "length data = length [?stub]"
       "\<forall>i<length [?stub]. \<forall>n nm.
                 int_item ([?stub] ! i) ''id'' = Inr n \<and> getitem ([?stub] ! i) ''name'' = Inr nm
                 \<and> get_role (env_guild sample_env) n = None
                 \<longrightarrow> data ! i = Object n (Some nm)"
    by blast
  from r(4) i n g have "data ! 0 = Object 999 (Some (PStr ''gone''))" by simp
  with r(1,2,3) k show ?thesis by (intro exI conjI) simp_all
qed
section \<open>Application-command permission updates\<close>

lemma falsy_no_item: "\<not> truthy v \<Longrightarrow> \<exists>e. getitem v k = Inl e"
  by (cases v) auto

lemma permissions_append_list:
  "permissions_append d x = Inr d' \<Longrightarrow> map_of d ''app_command_permissions'' = Some (PList xs) \<Longrightarrow>
   map_of d' ''app_command_permissions'' = Some (PList (xs @ [x]))"
  by (auto simp: permissions_append_def map_of_setattr)

lemma append_permissions_lists:
  assumes ap: "append_app_command_permissions b a tid t0 ov nv = Inr (b', a')"
    and b: "map_of b ''app_command_permissions'' = Some (PList xs)"
    and a: "map_of a ''app_command_permissions'' = Some (PList ys)"
  shows "map_of b' ''app_command_permissions'' =
           Some (PList (xs @ (if ov = PNone then []
                              else case getitem ov ''permission'' of
                                     Inr p \<Rightarrow> [PTuple [if t0 = PNone then Object tid None else t0, p]]
                                   | Inl e \<Rightarrow> [])))
       \<and> map_of a' ''app_command_permissions'' =
           Some (PList (ys @ (if nv = PNone then []
                              else case getitem nv ''permission'' of
                                     Inr p \<Rightarrow> [PTuple [if t0 = PNone then Object tid None else t0, p]]
                                   | Inl e \<Rightarrow> [])))"
proof -
  let ?t = "if t0 = PNone then Object tid None else t0"
  from ap obtain
    bs: "(if ov \<noteq> PNone then
              (case getitem ov ''permission'' of
                 Inl e \<Rightarrow> Inl e
               | Inr p \<Rightarrow> permissions_append b (PTuple [?t, p]))
            else Inr b) = Inr b'" and
    as: "(if nv \<noteq> PNone then
              (case getitem nv ''permission'' of
                 Inl e \<Rightarrow> Inl e
               | Inr p \<Rightarrow> permissions_append a (PTuple [?t, p]))
            else Inr a) = Inr a'"
    by (auto simp: append_app_command_permissions_def Let_def split: sum.splits)
  from bs b have 1: "map_of b' ''app_command_permissions'' =
           Some (PList (xs @ (if ov = PNone then []
                              else case getitem ov ''permission'' of
                                     Inr p \<Rightarrow> [PTuple [?t, p]]
                                   | Inl e \<Rightarrow> [])))"
    by (cases "ov = PNone"; cases "getitem ov ''permission''")
       (auto dest: permissions_append_list)
  from as a have 2: "map_of a' ''app_command_permissions'' =
           Some (PList (ys @ (if nv = PNone then []
                              else case getitem nv ''permission'' of
                                     Inr p \<Rightarrow> [PTuple [?t, p]]
                                   | Inl e \<Rightarrow> [])))"
    by (cases "nv = PNone"; cases "getitem nv ''permission''")
       (auto dest: permissions_append_list)
  from 1 2 show ?thesis by simp
qed

lemma append_permissions_needs_item:
  "append_app_command_permissions b a tid t0 ov nv = Inr (b', a') \<Longrightarrow> ov \<noteq> PNone \<Longrightarrow>
   \<exists>p. getitem ov ''permission'' = Inr p"
  by (auto simp: append_app_command_permissions_def Let_def split: sum.splits if_splits)


lemma dispatch_target:
  assumes "tid \<noteq> guild_id (env_guild ev) - 1" "getitem v ''type'' = Inr t"
    "(if ov \<noteq> PNone then ov else nv) = v"
  shows "(if (if eq_int t 1 then
                (case get_role (env_guild ev) tid of None \<Rightarrow> PNone | Some r \<Rightarrow> Entity r)
              else if eq_int t 2 then entry_get_member ev (Some tid)
              else if eq_int t 3 then
                (case get_channel (env_guild ev) tid of None \<Rightarrow> PNone | Some c \<Rightarrow> Entity c)
              else PNone) = PNone
          then Object tid None
          else (if eq_int t 1 then
                  (case get_role (env_guild ev) tid of None \<Rightarrow> PNone | Some r \<Rightarrow> Entity r)
                else if eq_int t 2 then entry_get_member ev (Some tid)
                else if eq_int t 3 then
                  (case get_channel (env_guild ev) tid of None \<Rightarrow> PNone | Some c \<Rightarrow> Entity c)
                else PNone))
         = permission_target ev tid ov nv"
  using assms
  by (auto simp: permission_target_def entity_or_Object_def split: option.splits)

lemma handle_permissions_lists:
  assumes h: "handle_app_command_permissions b a ev tid ov nv = Inr (b', a')"
    and b: "map_of b ''app_command_permissions'' = Some (PList xs)"
    and a: "map_of a ''app_command_permissions'' = Some (PList ys)"
  shows "map_of b' ''app_command_permissions'' =
           Some (PList (xs @ (if ov = PNone then []
                              else case getitem ov ''permission'' of
                                     Inr p \<Rightarrow> [PTuple [permission_target ev tid ov nv, p]]
                                   | Inl e \<Rightarrow> [])))
       \<and> map_of a' ''app_command_permissions'' =
           Some (PList (ys @ (if nv = PNone then []
                              else case getitem nv ''permission'' of
                                     Inr p \<Rightarrow> [PTuple [permission_target ev tid ov nv, p]]
                                   | Inl e \<Rightarrow> [])))"
proof (cases "tid = guild_id (env_guild ev) - 1")
  case True
  with h have ap: "append_app_command_permissions b a tid (AllChannels (guild_id (env_guild ev)))
                     ov nv = Inr (b', a')"
    by (simp add: handle_app_command_permissions_def Let_def)
  from True have pt: "permission_target ev tid ov nv = AllChannels (guild_id (env_guild ev))"
    by (simp add: permission_target_def)
  show ?thesis unfolding pt using append_permissions_lists[OF ap b a] by simp
next
  case False
  let ?v = "if truthy ov then ov else nv"
  show ?thesis
  proof (cases "?v = PNone")
    case True
    with False h have same: "b' = b" "a' = a"
      by (simp_all add: handle_app_command_permissions_def Let_def)
    from True have f: "\<not> truthy ov" and n: "nv = PNone"
      by (auto split: if_splits)
    from falsy_no_item[OF f] obtain e where "getitem ov ''permission'' = Inl e" by blast
    with same n b a show ?thesis by simp
  next
    case nonnull: False
    with False h obtain t where
      t: "getitem ?v ''type'' = Inr t" and
      ap: "append_app_command_permissions b a tid
             (if eq_int t 1 then
                (case get_role (env_guild ev) tid of None \<Rightarrow> PNone | Some r \<Rightarrow> Entity r)
              else if eq_int t 2 then entry_get_member ev (Some tid)
              else if eq_int t 3 then
                (case get_channel (env_guild ev) tid of None \<Rightarrow> PNone | Some c \<Rightarrow> Entity c)
              else PNone) ov nv = Inr (b', a')"
      by (auto simp: handle_app_command_permissions_def Let_def split: sum.splits)
    have v: "(if ov \<noteq> PNone then ov else nv) = ?v"
    proof (cases "truthy ov")
      case True
      then show ?thesis by auto
    next
      case f: False
      have "ov = PNone"
      proof (rule ccontr)
        assume "ov \<noteq> PNone"
        from append_permissions_needs_item[OF ap this] falsy_no_item[OF f, of "''permission''"]
        show False by auto
      qed
      then show ?thesis by simp
    qed
    show ?thesis
      unfolding dispatch_target[OF False t v, symmetric]
      using append_permissions_lists[OF ap b a] by simp
  qed
qed

lemma permissions_step_lists:
  assumes st: "app_command_permissions_step ev (b, a) d = Inr (b', a')"
    and b: "map_of b ''app_command_permissions'' = Some (PList xs)"
    and a: "map_of a ''app_command_permissions'' = Some (PList ys)"
  shows "map_of b' ''app_command_permissions'' = Some (PList (xs @ permission_pairs ev d ''old_value''))
       \<and> map_of a' ''app_command_permissions'' = Some (PList (ys @ permission_pairs ev d ''new_value''))"
proof -
  from st obtain tid ov nv where
    d: "int_item d ''key'' = Inr tid" "dict_get d ''old_value'' = Inr ov"
       "dict_get d ''new_value'' = Inr nv" and
    h: "handle_app_command_permissions b a ev tid ov nv = Inr (b', a')"
    by (auto simp: app_command_permissions_step_def split: sum.splits)
  from handle_permissions_lists[OF h b a] d show ?thesis
    by (simp add: permission_pairs_def)
qed

lemma permissions_fold_lists:
  "fold_result (app_command_permissions_step ev) ds (b, a) = Inr (b', a') \<Longrightarrow>
   map_of b ''app_command_permissions'' = Some (PList xs) \<Longrightarrow>
   map_of a ''app_command_permissions'' = Some (PList ys) \<Longrightarrow>
   map_of b' ''app_command_permissions''
     = Some (PList (xs @ concat (map (\<lambda>d. permission_pairs ev d ''old_value'') ds)))
   \<and> map_of a' ''app_command_permissions''
     = Some (PList (ys @ concat (map (\<lambda>d. permission_pairs ev d ''new_value'') ds)))"
proof (induction ds arbitrary: b a xs ys)
  case Nil
  then show ?case by simp
next
  case (Cons d ds)
  from Cons.prems(1) obtain b1 a1 where
    step: "app_command_permissions_step ev (b, a) d = Inr (b1, a1)" and
    rest: "fold_result (app_command_permissions_step ev) ds (b1, a1) = Inr (b', a')"
    by (auto split: sum.splits)
  from permissions_step_lists[OF step Cons.prems(2,3)] have
    1: "map_of b1 ''app_command_permissions'' = Some (PList (xs @ permission_pairs ev d ''old_value''))"
       "map_of a1 ''app_command_permissions'' = Some (PList (ys @ permission_pairs ev d ''new_value''))"
    by simp_all
  from Cons.IH[OF rest 1] show ?case by simp
qed

text \<open>
  Claim C6. In an entry whose action is the application-command permission update, when
  the decoder returns, \<open>before.app_command_permissions\<close> and
  \<open>after.app_command_permissions\<close> list, record by record, one pair per record that has
  an old (respectively new) value: its permission, with the target of the record. The
  target of a record whose key is \<open>guild.id - 1\<close> is the all-channels object, whatever
  the \<open>type\<close> in its values; the target of any other record is selected by the \<open>type\<close>
  (1 role, 2 user, 3 channel) of the old value when present, else of the new value, and
  is the opaque reference with the record's id when the lookup misses.
\<close>

theorem app_command_permission_targets:
  assumes acp: "action_is (action entry) ''app_command_permission_update''"
    and ok: "AuditLogChanges_init ev entry (PList ds) = Inr (b, a)"
  shows "map_of b ''app_command_permissions''
           = Some (PList (concat (map (\<lambda>d. permission_pairs ev d ''old_value'') ds)))
       \<and> map_of a ''app_command_permissions''
           = Some (PList (concat (map (\<lambda>d. permission_pairs ev d ''new_value'') ds)))
       \<and> (\<forall>ov nv. permission_target ev (guild_id (env_guild ev) - 1) ov nv
                     = AllChannels (guild_id (env_guild ev)))"
proof -
  from acp ok have
    "fold_result (app_command_permissions_step ev) ds
       ([(''app_command_permissions'', PList [])], [(''app_command_permissions'', PList [])])
     = Inr (b, a)"
    by (simp add: AuditLogChanges_init_def)
  from permissions_fold_lists[OF this, of "[]" "[]"] show ?thesis
    by (simp add: permission_target_def)
qed


theorem app_command_permission_targets_witness:
  "AuditLogChanges_init sample_env (sample_entry permission_update None PNone)
     (PList [PDict [(''key'', PStr ''9''),
                    (''new_value'', PDict [(''type'', PInt 1), (''permission'', PBool True)])],
             PDict [(''key'', PStr ''7''),
                    (''old_value'', PDict [(''type'', PInt 3), (''permission'', PBool False)])]])
     = Inr ([(''app_command_permissions'', PList [PTuple [Object 7 None, PBool False]])],
            [(''app_command_permissions'', PList [PTuple [AllChannels 10, PBool True]])])
   \<and> map_of [(''app_command_permissions'', PList [PTuple [AllChannels 10, PBool True]])]
         ''app_command_permissions''
       = Some (PList (concat (map (\<lambda>d. permission_pairs sample_env d ''new_value'')
           [PDict [(''key'', PStr ''9''),
                   (''new_value'', PDict [(''type'', PInt 1), (''permission'', PBool True)])],
            PDict [(''key'', PStr ''7''),
                   (''old_value'', PDict [(''type'', PInt 3), (''permission'', PBool False)])]])))"
proof -
  let ?e = "sample_entry permission_update None PNone"
  let ?ds = "[PDict [(''key'', PStr ''9''),
                    (''new_value'', PDict [(''type'', PInt 1), (''permission'', PBool True)])],
             PDict [(''key'', PStr ''7''),
                    (''old_value'', PDict [(''type'', PInt 3), (''permission'', PBool False)])]]"
  have h1: "action_is (action ?e) ''app_command_permission_update''"
    by (simp add: sample_entry_def permission_update_def)
  have h2: "AuditLogChanges_init sample_env ?e (PList ?ds)
     = Inr ([(''app_command_permissions'', PList [PTuple [Object 7 None, PBool False]])],
            [(''app_command_permissions'', PList [PTuple [AllChannels 10, PBool True]])])"
    by (simp add: AuditLogChanges_init_def sample_entry_def permission_update_def
        app_command_permissions_step_def handle_app_command_permissions_def
        append_app_command_permissions_def permissions_append_def
        int_item_def dict_get_def digit_val_def decimal_digits_def
        sample_env_def sample_guild_def Let_def)
  from app_command_permission_targets[OF h1 h2] h2 show ?thesis by simp
qed
section \<open>Cached projections\<close>

text \<open>
  Claim C3. For every entry, when a first access to \<open>target\<close> returns a value, a second
  access returns the same value and leaves the entry as it is, whatever the contents of
  the lookup tables (guild, users, integrations, application commands) at the second
  access; likewise for \<open>changes\<close>, and for the plain attribute \<open>extra\<close>.
\<close>

theorem cached_projections:
  "(entry_target ev1 e = (Inr t, e1) \<longrightarrow> entry_target ev2 e1 = (Inr t, e1))
   \<and> (entry_changes ev1 e = (Inr c, e2) \<longrightarrow> entry_changes ev2 e2 = (Inr c, e2))
   \<and> (entry_extra ev1 e = (Inr x, e3) \<longrightarrow> entry_extra ev2 e3 = (Inr x, e3))"
proof (intro conjI impI)
  assume "entry_target ev1 e = (Inr t, e1)"
  then have "cached_target e1 = Some t"
    by (auto simp: entry_target_def split: option.splits prod.splits sum.splits)
  then show "entry_target ev2 e1 = (Inr t, e1)"
    by (simp add: entry_target_def)
next
  assume "entry_changes ev1 e = (Inr c, e2)"
  then have "cached_changes e2 = Some c"
    by (auto simp: entry_changes_def split: option.splits sum.splits)
  then show "entry_changes ev2 e2 = (Inr c, e2)"
    by (simp add: entry_changes_def)
next
  assume "entry_extra ev1 e = (Inr x, e3)"
  then show "entry_extra ev2 e3 = (Inr x, e3)"
    by (auto simp: entry_extra_def)
qed

theorem cached_projections_witness:
  "entry_target sample_env (sample_entry role_update (Some 3) (PList []))
     = (Inr (Entity 300), (sample_entry role_update (Some 3) (PList []))\<lparr>cached_target := Some (Entity 300)\<rparr>)
   \<and> entry_target empty_env
         ((sample_entry role_update (Some 3) (PList []))\<lparr>cached_target := Some (Entity 300)\<rparr>)
     = (Inr (Entity 300), (sample_entry role_update (Some 3) (PList []))\<lparr>cached_target := Some (Entity 300)\<rparr>)
   \<and> fst (entry_target empty_env (sample_entry role_update (Some 3) (PList []))) = Inr PNone"
proof -
  let ?e = "sample_entry role_update (Some 3) (PList [])"
  have h: "entry_target sample_env ?e = (Inr (Entity 300), ?e\<lparr>cached_target := Some (Entity 300)\<rparr>)"
    by (simp add: entry_target_def target_body_def sample_entry_def role_update_def converters_def
        convert_target_user_def entry_get_member_def sample_env_def sample_guild_def)
  have n: "fst (entry_target empty_env ?e) = Inr PNone"
    by (simp add: entry_target_def target_body_def sample_entry_def role_update_def converters_def
        convert_target_user_def entry_get_member_def empty_env_def)
  from cached_projections[of sample_env ?e "Entity 300" "?e\<lparr>cached_target := Some (Entity 300)\<rparr>" empty_env]
    h n
  show ?thesis by blast
qed

section \<open>The invite target\<close>

text \<open>The construction establishes the consistency of the caches, and every access keeps it.\<close>

lemma from_data_consistent: "from_data tbl ev data = Inr e \<Longrightarrow> caches_consistent e"
  by (auto simp: from_data_def caches_consistent_def split: sum.splits)

lemma entry_changes_consistent:
  "caches_consistent e \<Longrightarrow> caches_consistent (snd (entry_changes ev e))"
  by (auto simp: entry_changes_def caches_consistent_def split: option.splits sum.splits)

lemma entry_before_consistent:
  assumes "caches_consistent e"
  shows "caches_consistent (snd (entry_before ev e))"
proof (cases "cached_before e")
  case (Some b)
  with assms show ?thesis by (simp add: entry_before_def)
next
  case None
  obtain r e' where ch: "entry_changes ev e = (r, e')" by (cases "entry_changes ev e")
  from entry_changes_consistent[OF assms, of ev] ch have c: "caches_consistent e'" by simp
  show ?thesis
  proof (cases r)
    case (Inl err)
    with None ch c show ?thesis by (simp add: entry_before_def)
  next
    case (Inr v)
    with ch have "cached_changes e' = Some v"
      by (auto simp: entry_changes_def split: option.splits sum.splits)
    with None ch c Inr show ?thesis
      by (auto simp: entry_before_def caches_consistent_def split: option.splits)
  qed
qed

lemma entry_after_consistent:
  assumes "caches_consistent e"
  shows "caches_consistent (snd (entry_after ev e))"
proof (cases "cached_after e")
  case (Some b)
  with assms show ?thesis by (simp add: entry_after_def)
next
  case None
  obtain r e' where ch: "entry_changes ev e = (r, e')" by (cases "entry_changes ev e")
  from entry_changes_consistent[OF assms, of ev] ch have c: "caches_consistent e'" by simp
  show ?thesis
  proof (cases r)
    case (Inl err)
    with None ch c show ?thesis by (simp add: entry_after_def)
  next
    case (Inr v)
    with ch have "cached_changes e' = Some v"
      by (auto simp: entry_changes_def split: option.splits sum.splits)
    with None ch c Inr show ?thesis
      by (auto simp: entry_after_def caches_consistent_def split: option.splits)
  qed
qed

lemma convert_target_invite_consistent:
  assumes "caches_consistent e"
  shows "caches_consistent (snd (convert_target_invite ev e tid))"
  using entry_before_consistent[OF assms, of ev] entry_after_consistent[OF assms, of ev]
  by (auto simp: convert_target_invite_def split: prod.splits sum.splits)

lemma converter_consistent:
  assumes "caches_consistent e" "(kind, conv) \<in> set converters"
  shows "caches_consistent (snd (conv ev e tid))"
proof (cases "conv = convert_target_invite")
  case True
  with assms(1) show ?thesis by (simp add: convert_target_invite_consistent)
next
  case False
  with assms(2) have "snd (conv ev e tid) = e"
    by (auto simp: converters_def convert_target_guild_def convert_target_channel_def
        convert_target_user_def convert_target_role_def convert_target_emoji_def
        convert_target_message_def convert_target_stage_instance_def convert_target_sticker_def
        convert_target_thread_def convert_target_guild_scheduled_event_def
        convert_target_integration_def convert_target_app_command_def
        convert_target_integration_or_app_command_def)
  with assms(1) show ?thesis by simp
qed

lemma entry_target_consistent:
  assumes "caches_consistent e"
  shows "caches_consistent (snd (entry_target ev e))"
proof -
  have tb: "caches_consistent (snd (target_body ev e))"
    using assms converter_consistent[OF assms]
    by (auto simp: target_body_def split: option.splits dest: map_of_SomeD)
  obtain r e' where t: "target_body ev e = (r, e')" by (cases "target_body ev e")
  with tb have "caches_consistent e'" by simp
  then have "caches_consistent (e'\<lparr>cached_target := Some x\<rparr>)" for x
    by (auto simp: caches_consistent_def split: option.splits)
  with t assms \<open>caches_consistent e'\<close> show ?thesis
    by (auto simp: entry_target_def split: option.splits sum.splits)
qed

lemma entry_category_consistent:
  "caches_consistent e \<Longrightarrow> caches_consistent (snd (entry_category e))"
  by (auto simp: entry_category_def caches_consistent_def split: option.splits)

lemma entry_before_changes:
  assumes cons: "caches_consistent e" and ch: "entry_changes ev e = (Inr (b, a), e1)"
  shows "fst (entry_before ev e) = Inr b"
proof (cases "cached_before e")
  case None
  with ch show ?thesis by (simp add: entry_before_def)
next
  case (Some b0)
  with cons obtain c where c: "cached_changes e = Some c" "fst c = b0"
    by (auto simp: caches_consistent_def split: option.splits)
  with ch have "c = (b, a)" by (simp add: entry_changes_def)
  with c Some show ?thesis by (simp add: entry_before_def)
qed

lemma entry_after_changes:
  assumes cons: "caches_consistent e" and ch: "entry_changes ev e = (Inr (b, a), e1)"
  shows "fst (entry_after ev e) = Inr a"
proof (cases "cached_after e")
  case None
  with ch show ?thesis by (simp add: entry_after_def)
next
  case (Some a0)
  with cons obtain c where c: "cached_changes e = Some c" "snd c = a0"
    by (auto simp: caches_consistent_def split: option.splits)
  with ch have "c = (b, a)" by (simp add: entry_changes_def)
  with c Some show ?thesis by (simp add: entry_after_def)
qed

lemma convert_target_invite_result:
  assumes cons: "caches_consistent e" and ch: "entry_changes ev e = (Inr (b, a), e1)"
  shows "fst (convert_target_invite ev e tid)
           = invite_of_changeset ev (if action_is (action e) ''invite_delete'' then b else a)"
proof (cases "action_is (action e) ''invite_delete''")
  case True
  from entry_before_changes[OF cons ch] obtain e' where "entry_before ev e = (Inr b, e')"
    by (cases "entry_before ev e") auto
  with True show ?thesis by (simp add: convert_target_invite_def)
next
  case False
  from entry_after_changes[OF cons ch] obtain e' where "entry_after ev e = (Inr a, e')"
    by (cases "entry_after ev e") auto
  with False show ?thesis by (simp add: convert_target_invite_def)
qed

lemma invite_of_changeset_present:
  assumes "getattr cs ''max_age'' = Inr max_age" "getattr cs ''max_uses'' = Inr max_uses"
    "getattr cs ''code'' = Inr code" "getattr cs ''temporary'' = Inr temporary"
    "getattr cs ''uses'' = Inr uses" "getattr cs ''channel'' = Inr channel"
  shows "invite_of_changeset ev cs =
           Inr (Invite
                  (PDict [(''max_age'', max_age), (''max_uses'', max_uses), (''code'', code),
                          (''temporary'', temporary), (''uses'', uses), (''channel'', PNone)])
                  (Guild (guild_id (env_guild ev)))
                  channel
                  (map_of cs ''inviter''))"
  using assms
  by (simp add: invite_of_changeset_def getattr_def Let_def split: option.splits)

text \<open>
  Claim C7. Take an entry of the invite target kind that has not resolved its target yet.
  Its \<open>target\<close> is the invite rebuilt from a container of the decoded change set: from
  \<open>before\<close> when the action is \<open>invite_delete\<close>, from \<open>after\<close> for every other action.
  When that container has the attributes \<open>max_age\<close>, \<open>max_uses\<close>, \<open>code\<close>,
  \<open>temporary\<close>, \<open>uses\<close> and \<open>channel\<close>, the invite is built from them, and its inviter
  is the \<open>inviter\<close> attribute of the same container; when the container has no
  \<open>inviter\<close>, the invite is built all the same and its inviter is left unset.
\<close>

theorem invite_target:
  assumes kind: "action_target_type (action e) = Some ''invite''"
    and fresh: "cached_target e = None"
    and cons: "caches_consistent e"
  shows "(\<forall>b a e1. entry_changes ev e = (Inr (b, a), e1) \<longrightarrow>
            fst (entry_target ev e)
              = invite_of_changeset ev (if action_is (action e) ''invite_delete'' then b else a))
       \<and> (\<forall>cs max_age max_uses code temporary uses channel.
            getattr cs ''max_age'' = Inr max_age \<and> getattr cs ''max_uses'' = Inr max_uses
            \<and> getattr cs ''code'' = Inr code \<and> getattr cs ''temporary'' = Inr temporary
            \<and> getattr cs ''uses'' = Inr uses \<and> getattr cs ''channel'' = Inr channel
            \<longrightarrow> invite_of_changeset ev cs =
                  Inr (Invite
                         (PDict [(''max_age'', max_age), (''max_uses'', max_uses), (''code'', code),
                                 (''temporary'', temporary), (''uses'', uses), (''channel'', PNone)])
                         (Guild (guild_id (env_guild ev)))
                         channel
                         (map_of cs ''inviter'')))"
proof (intro conjI allI impI)
  fix b a e1 assume ch: "entry_changes ev e = (Inr (b, a), e1)"
  obtain r e' where c: "convert_target_invite ev e (raw_target_id e) = (r, e')"
    by (cases "convert_target_invite ev e (raw_target_id e)")
  with convert_target_invite_result[OF cons ch, of "raw_target_id e"]
  have r: "r = invite_of_changeset ev (if action_is (action e) ''invite_delete'' then b else a)"
    by simp
  from kind c have "target_body ev e = (r, e')"
    by (simp add: target_body_def converters_def)
  from entry_target_fresh[OF fresh this] r
  show "fst (entry_target ev e)
          = invite_of_changeset ev (if action_is (action e) ''invite_delete'' then b else a)"
    by simp
next
  fix cs max_age max_uses code temporary uses channel
  assume "getattr cs ''max_age'' = Inr max_age \<and> getattr cs ''max_uses'' = Inr max_uses
            \<and> getattr cs ''code'' = Inr code \<and> getattr cs ''temporary'' = Inr temporary
            \<and> getattr cs ''uses'' = Inr uses \<and> getattr cs ''channel'' = Inr channel"
  then show "invite_of_changeset ev cs =
                  Inr (Invite
                         (PDict [(''max_age'', max_age), (''max_uses'', max_uses), (''code'', code),
                                 (''temporary'', temporary), (''uses'', uses), (''channel'', PNone)])
                         (Guild (guild_id (env_guild ev)))
                         channel
                         (map_of cs ''inviter''))"
    by (simp add: invite_of_changeset_present)
qed


theorem invite_target_witness:
  "fst (entry_target sample_env (sample_entry invite_delete None sample_invite_changes))
     = Inr (Invite
              (PDict [(''max_age'', PInt 0), (''max_uses'', PInt 0), (''code'', PStr ''abc''),
                      (''temporary'', PBool False), (''uses'', PInt 1), (''channel'', PNone)])
              (Guild 10) (Entity 200) None)"
proof -
  let ?e = "sample_entry invite_delete None sample_invite_changes"
  let ?b = "[(''code'', PStr ''abc''), (''max_age'', PInt 0), (''max_uses'', PInt 0),
             (''temporary'', PBool False), (''uses'', PInt 1), (''channel'', Entity 200)]"
  let ?a = "[(''code'', PNone), (''max_age'', PNone), (''max_uses'', PNone),
             (''temporary'', PNone), (''uses'', PNone), (''channel'', PNone)]"
  have h1: "action_target_type (action ?e) = Some ''invite''"
    by (simp add: sample_entry_def invite_delete_def)
  have h2: "cached_target ?e = None" by (simp add: sample_entry_def)
  have h3: "caches_consistent ?e" by (simp add: sample_entry_def caches_consistent_def)
  have d: "AuditLogChanges_init sample_env ?e sample_invite_changes = Inr (?b, ?a)"
    by (simp add: AuditLogChanges_init_def sample_entry_def invite_delete_def
        sample_invite_changes_def decode_changes_def decode_change_def decode_side_def
        resolve_def TRANSFORMERS_def TRANSFORMERS_table_def transform_channel_def
        or_Object_def digit_val_def decimal_digits_def sample_env_def sample_guild_def
        add_aliases_def add_alias_def hasattr_def)
  have h4: "entry_changes sample_env ?e
              = (Inr (?b, ?a), ?e\<lparr>raw_changes := None, cached_changes := Some (?b, ?a)\<rparr>)"
    unfolding entry_changes_def using d by (simp add: sample_entry_def)
  have del: "action_is (action ?e) ''invite_delete''"
    by (simp add: sample_entry_def invite_delete_def)
  from invite_target[OF h1 h2 h3, of sample_env] h4 del
  have "fst (entry_target sample_env ?e) = invite_of_changeset sample_env ?b"
    by simp
  also have "\<dots> = Inr (Invite
              (PDict [(''max_age'', PInt 0), (''max_uses'', PInt 0), (''code'', PStr ''abc''),
                      (''temporary'', PBool False), (''uses'', PInt 1), (''channel'', PNone)])
              (Guild 10) (Entity 200) None)"
    by (simp add: invite_of_changeset_def getattr_def sample_env_def sample_guild_def)
  finally show ?thesis .
qed

end
